theory Spec2Isabelle
  imports Main "HOL-Library.Multiset" "HOL-Library.Char_ord" "HOL-Library.List_Lexorder"
begin

section \<open>The store: tables of \<open>db/init.sql\<close>\<close>

text \<open>
  The cart and order tools of \<open>server/dist/index.js\<close> are sequences of SQL statements
  against the PostgreSQL schema of \<open>db/init.sql\<close>. A table is the list of its rows in
  stored order (a query without \<open>ORDER BY\<close> returns them in that order, \<open>INSERT\<close>
  appends, \<open>UPDATE\<close> rewrites a row in place, \<open>DELETE\<close> filters). Only the columns the
  tools read or write are kept (\<open>description\<close>, \<open>category\<close> and \<open>created_at\<close> are
  never touched by them). Column values are mathematical integers; the 32-bit range of
  the \<open>INTEGER\<close> columns is written out where a statement binds a tool argument or
  computes a value (PostgreSQL raises \<open>numeric_value_out_of_range\<close> there).
\<close>

record product =
  p_id :: int
  p_name :: string
  p_price_cents :: int
  p_stock :: int

datatype cart_status = Active | CheckedOut | Abandoned

record cart =
  c_id :: int
  c_customer_id :: int
  c_status :: cart_status

record cart_item =
  ci_cart_id :: int
  ci_product_id :: int
  ci_quantity :: int
  ci_price_cents :: int

record order =
  o_id :: int
  o_customer_id :: int

record order_item =
  oi_order_id :: int
  oi_product_id :: int
  oi_quantity :: int
  oi_price_cents :: int

text \<open>
  \<open>customers\<close> keeps the ids of the customer rows (the tools only refer to them through
  foreign keys). \<open>carts_id_seq\<close> and \<open>orders_id_seq\<close> are the sequences behind the
  \<open>SERIAL\<close> keys: the value the next \<open>nextval\<close> returns.
\<close>

record db =
  products :: "product list"
  customers :: "int list"
  carts :: "cart list"
  cart_items :: "cart_item list"
  orders :: "order list"
  order_items :: "order_item list"
  carts_id_seq :: int
  orders_id_seq :: int

text \<open>
  The errors a tool call can end with: the five messages the handlers throw, and the
  error classes the store raises for the constraints of the schema.
\<close>

datatype error =
    ProductNotFound
  | OutOfStock
  | NotEnoughStock
  | NoActiveCart
  | CartIsEmpty
  | UniqueViolation
  | ForeignKeyViolation
  | CheckViolation
  | NumericValueOutOfRange
  | SequenceLimitExceeded

definition int4 :: "int \<Rightarrow> bool" where
  "int4 x = (- 2147483648 \<le> x \<and> x \<le> 2147483647)"

text \<open>Every tool is pinned to customer 1 (\<open>customer_id=1\<close> in each statement).\<close>

definition the_customer :: int where
  "the_customer = 1"

section \<open>Transactions\<close>

text \<open>
  A handler body maps the store to a result and the store it has reached. \<open>ROLLBACK\<close>
  restores every table to its state at \<open>BEGIN\<close>; sequences are not transactional, so
  the values drawn by \<open>nextval\<close> stay drawn. \<open>transaction\<close> is the handlers'
  \<open>try { BEGIN; ...; COMMIT } catch (e) { ROLLBACK; throw e }\<close>.
\<close>

definition rollback :: "db \<Rightarrow> db \<Rightarrow> db" where
  "rollback snapshot cur =
     snapshot\<lparr>carts_id_seq := carts_id_seq cur, orders_id_seq := orders_id_seq cur\<rparr>"

definition transaction :: "(db \<Rightarrow> (error + 'a) \<times> db) \<Rightarrow> db \<Rightarrow> (error + 'a) \<times> db" where
  "transaction body d =
     (case body d of
        (Inr r, d') \<Rightarrow> (Inr r, d')
      | (Inl e, d') \<Rightarrow> (Inl e, rollback d d'))"

section \<open>Statements\<close>

text \<open>\<open>SELECT id FROM carts WHERE customer_id=1 AND status='active' LIMIT 1\<close>\<close>

definition select_active_cart :: "db \<Rightarrow> int option" where
  "select_active_cart d =
     map_option c_id
       (find (\<lambda>c. c_customer_id c = the_customer \<and> c_status c = Active) (carts d))"

text \<open>
  \<open>INSERT INTO carts (customer_id, status) VALUES (1, 'active') RETURNING id\<close>: the id
  comes from the sequence; the primary key, the partial unique index
  \<open>ux_carts_active_per_customer\<close> and the foreign key to \<open>customers\<close> are checked.
\<close>

definition insert_cart :: "db \<Rightarrow> (error + int) \<times> db" where
  "insert_cart d =
     (if \<not> int4 (carts_id_seq d) then (Inl SequenceLimitExceeded, d)
      else
        let newid = carts_id_seq d;
            d1 = d\<lparr>carts_id_seq := newid + 1\<rparr>
        in if newid \<in> set (map c_id (carts d)) then (Inl UniqueViolation, d1)
           else if list_ex (\<lambda>c. c_customer_id c = the_customer \<and> c_status c = Active) (carts d)
             then (Inl UniqueViolation, d1)
           else if the_customer \<notin> set (customers d) then (Inl ForeignKeyViolation, d1)
           else (Inr newid,
                 d1\<lparr>carts := carts d @
                   [\<lparr>c_id = newid, c_customer_id = the_customer, c_status = Active\<rparr>]\<rparr>))"

text \<open>\<open>SELECT price_cents, stock FROM products WHERE id=$1\<close> (with or without \<open>FOR UPDATE\<close>)\<close>

definition select_product :: "db \<Rightarrow> int \<Rightarrow> product option" where
  "select_product d pid = find (\<lambda>p. p_id p = pid) (products d)"

text \<open>\<open>SELECT product_id, quantity, price_cents FROM cart_items WHERE cart_id=$1\<close>\<close>

definition select_cart_items :: "db \<Rightarrow> int \<Rightarrow> cart_item list" where
  "select_cart_items d cartId = filter (\<lambda>ci. ci_cart_id ci = cartId) (cart_items d)"

text \<open>\<open>SELECT quantity FROM cart_items WHERE cart_id=$1 AND product_id=$2\<close>\<close>

definition select_cart_line :: "db \<Rightarrow> int \<Rightarrow> int \<Rightarrow> cart_item option" where
  "select_cart_line d cartId pid =
     find (\<lambda>ci. ci_cart_id ci = cartId \<and> ci_product_id ci = pid) (cart_items d)"

text \<open>
  \<open>INSERT INTO cart_items (cart_id, product_id, quantity, price_cents) VALUES ($1,$2,$3,$4)
  ON CONFLICT (cart_id, product_id) DO UPDATE SET quantity = cart_items.quantity + EXCLUDED.quantity\<close>.
  The proposed row is checked against the \<open>CHECK\<close> constraints first; on a conflict with the
  primary key the stored row's quantity is raised and its price is left as it is;
  otherwise the row is appended and its foreign keys are checked.
\<close>

definition upsert_cart_item :: "db \<Rightarrow> int \<Rightarrow> int \<Rightarrow> int \<Rightarrow> int \<Rightarrow> error + db" where
  "upsert_cart_item d cartId pid qty price =
     (if \<not> int4 qty then Inl NumericValueOutOfRange
      else if \<not> (qty > 0) \<or> \<not> (price \<ge> 0) then Inl CheckViolation
      else
        let hit = (\<lambda>ci. ci_cart_id ci = cartId \<and> ci_product_id ci = pid)
        in if list_ex hit (cart_items d) then
             (if list_ex (\<lambda>ci. hit ci \<and> \<not> int4 (ci_quantity ci + qty)) (cart_items d)
                then Inl NumericValueOutOfRange
              else if list_ex (\<lambda>ci. hit ci \<and> \<not> (ci_quantity ci + qty > 0)) (cart_items d)
                then Inl CheckViolation
              else Inr (d\<lparr>cart_items :=
                     map (\<lambda>ci. if hit ci then ci\<lparr>ci_quantity := ci_quantity ci + qty\<rparr> else ci)
                       (cart_items d)\<rparr>))
           else if cartId \<notin> set (map c_id (carts d)) \<or> pid \<notin> set (map p_id (products d))
             then Inl ForeignKeyViolation
           else Inr (d\<lparr>cart_items := cart_items d @
                  [\<lparr>ci_cart_id = cartId, ci_product_id = pid, ci_quantity = qty,
                    ci_price_cents = price\<rparr>]\<rparr>))"

text \<open>\<open>DELETE FROM cart_items WHERE cart_id=$1 AND product_id=$2\<close>, with its \<open>rowCount\<close>\<close>

definition delete_cart_line :: "db \<Rightarrow> int \<Rightarrow> int \<Rightarrow> nat \<times> db" where
  "delete_cart_line d cartId pid =
     (let hit = (\<lambda>ci. ci_cart_id ci = cartId \<and> ci_product_id ci = pid)
      in (length (filter hit (cart_items d)),
          d\<lparr>cart_items := filter (\<lambda>ci. \<not> hit ci) (cart_items d)\<rparr>))"

text \<open>\<open>INSERT INTO orders (customer_id) VALUES (1) RETURNING id\<close>\<close>

definition insert_order :: "db \<Rightarrow> (error + int) \<times> db" where
  "insert_order d =
     (if \<not> int4 (orders_id_seq d) then (Inl SequenceLimitExceeded, d)
      else
        let newid = orders_id_seq d;
            d1 = d\<lparr>orders_id_seq := newid + 1\<rparr>
        in if newid \<in> set (map o_id (orders d)) then (Inl UniqueViolation, d1)
           else if the_customer \<notin> set (customers d) then (Inl ForeignKeyViolation, d1)
           else (Inr newid,
                 d1\<lparr>orders := orders d @ [\<lparr>o_id = newid, o_customer_id = the_customer\<rparr>]\<rparr>))"

text \<open>
  \<open>INSERT INTO order_items (order_id, product_id, quantity, price_cents) VALUES ($1,$2,$3,$4)\<close>:
  the bound quantity must fit the column; the \<open>CHECK\<close>s, the primary key
  \<open>(order_id, product_id)\<close> and the two foreign keys are checked.
\<close>

definition insert_order_item :: "db \<Rightarrow> int \<Rightarrow> int \<Rightarrow> int \<Rightarrow> int \<Rightarrow> error + db" where
  "insert_order_item d orderId pid qty price =
     (if \<not> int4 qty then Inl NumericValueOutOfRange
      else if \<not> (qty > 0) \<or> \<not> (price \<ge> 0) then Inl CheckViolation
      else if list_ex (\<lambda>oi. oi_order_id oi = orderId \<and> oi_product_id oi = pid) (order_items d)
        then Inl UniqueViolation
      else if orderId \<notin> set (map o_id (orders d)) \<or> pid \<notin> set (map p_id (products d))
        then Inl ForeignKeyViolation
      else Inr (d\<lparr>order_items := order_items d @
             [\<lparr>oi_order_id = orderId, oi_product_id = pid, oi_quantity = qty,
               oi_price_cents = price\<rparr>]\<rparr>))"

text \<open>
  \<open>UPDATE products SET stock = stock - $1 WHERE id=$2\<close>: the bound quantity and the new
  value must fit the column, and the new value must satisfy \<open>CHECK (stock >= 0)\<close>.
\<close>

definition update_stock :: "db \<Rightarrow> int \<Rightarrow> int \<Rightarrow> error + db" where
  "update_stock d qty pid =
     (if \<not> int4 qty then Inl NumericValueOutOfRange
      else if list_ex (\<lambda>p. p_id p = pid \<and> \<not> int4 (p_stock p - qty)) (products d)
        then Inl NumericValueOutOfRange
      else if list_ex (\<lambda>p. p_id p = pid \<and> p_stock p - qty < 0) (products d)
        then Inl CheckViolation
      else Inr (d\<lparr>products :=
             map (\<lambda>p. if p_id p = pid then p\<lparr>p_stock := p_stock p - qty\<rparr> else p)
               (products d)\<rparr>))"

text \<open>\<open>UPDATE carts SET status='checked_out' WHERE id=$1\<close>\<close>

definition mark_checked_out :: "db \<Rightarrow> int \<Rightarrow> db" where
  "mark_checked_out d cartId =
     d\<lparr>carts := map (\<lambda>c. if c_id c = cartId then c\<lparr>c_status := CheckedOut\<rparr> else c) (carts d)\<rparr>"

text \<open>
  The row query of \<open>cart.view\<close>:
  \<open>SELECT ci.product_id, p.name, ci.quantity, ci.price_cents,
  (ci.quantity * ci.price_cents) as line_total FROM cart_items ci JOIN products p
  ON p.id = ci.product_id WHERE ci.cart_id=$1 ORDER BY p.name\<close>.
  The product of two \<open>INTEGER\<close> columns is an \<open>INTEGER\<close>: the query fails when a
  line total leaves the range. Names are ordered as character lists.
\<close>

record view_row =
  r_product_id :: int
  r_name :: string
  r_quantity :: int
  r_price_cents :: int
  r_line_total :: int

definition joined_lines :: "db \<Rightarrow> int \<Rightarrow> (cart_item \<times> product) list" where
  "joined_lines d cartId =
     concat (map (\<lambda>ci. map (\<lambda>p. (ci, p)) (filter (\<lambda>p. p_id p = ci_product_id ci) (products d)))
       (select_cart_items d cartId))"

definition view_row_of :: "cart_item \<times> product \<Rightarrow> view_row" where
  "view_row_of cp =
     \<lparr>r_product_id = ci_product_id (fst cp), r_name = p_name (snd cp),
      r_quantity = ci_quantity (fst cp), r_price_cents = ci_price_cents (fst cp),
      r_line_total = ci_quantity (fst cp) * ci_price_cents (fst cp)\<rparr>"

definition select_view_rows :: "db \<Rightarrow> int \<Rightarrow> error + view_row list" where
  "select_view_rows d cartId =
     (if list_ex (\<lambda>cp. \<not> int4 (ci_quantity (fst cp) * ci_price_cents (fst cp)))
           (joined_lines d cartId)
      then Inl NumericValueOutOfRange
      else Inr (sort_key r_name (map view_row_of (joined_lines d cartId))))"

section \<open>The tools\<close>

text \<open>
  A tool argument bound to a parameter that is compared with, or stored in, an
  \<open>INTEGER\<close> column must fit the type: the store rejects the statement otherwise
  (\<open>value ... is out of range for type integer\<close>). The tools validate their arguments
  as positive integers only. In the handlers below the check stands where the argument is
  first bound; values the handler has read from the store need none. The handlers'
  comparisons with a stock are on JavaScript numbers and are decided as on the integers
  (one side is an \<open>INTEGER\<close> value of the store, and rounding is monotone and exact
  far beyond that type); they are modelled on \<open>int\<close>. The total of \<open>cart.view\<close>
  is a sum of JavaScript numbers that is returned to the caller, and is modelled with its
  rounding. \<open>quantity ?? 1\<close> is the case over the optional argument.
\<close>

subsection \<open>\<open>create.order\<close> (buy now)\<close>

definition create_order_body :: "int \<Rightarrow> int option \<Rightarrow> db \<Rightarrow> (error + int) \<times> db" where
  "create_order_body productId quantity d =
     (let qty = (case quantity of Some q \<Rightarrow> q | None \<Rightarrow> 1)
      in if \<not> int4 productId then (Inl NumericValueOutOfRange, d)
         else
           (case select_product d productId of
              None \<Rightarrow> (Inl ProductNotFound, d)
            | Some pr \<Rightarrow>
                let price = p_price_cents pr;
                    stock = p_stock pr
                in if stock < qty then (Inl OutOfStock, d)
                   else
                     (case insert_order d of
                        (Inl e, d1) \<Rightarrow> (Inl e, d1)
                      | (Inr orderId, d1) \<Rightarrow>
                          (case insert_order_item d1 orderId productId qty price of
                             Inl e \<Rightarrow> (Inl e, d1)
                           | Inr d2 \<Rightarrow>
                               (case update_stock d2 qty productId of
                                  Inl e \<Rightarrow> (Inl e, d2)
                                | Inr d3 \<Rightarrow> (Inr orderId, d3))))))"

definition create_order :: "int \<Rightarrow> int option \<Rightarrow> db \<Rightarrow> (error + int) \<times> db" where
  "create_order productId quantity = transaction (create_order_body productId quantity)"

subsection \<open>\<open>cart.ensure\<close>\<close>

text \<open>
  The handler runs its two statements outside any transaction, each committing on its
  own. \<open>others\<close> is what other sessions commit between the \<open>SELECT\<close> and the
  \<open>INSERT\<close> (the identity when the call runs alone). An error of the \<open>INSERT\<close> is not
  caught: the call ends with it.
\<close>

definition cart_ensure :: "(db \<Rightarrow> db) \<Rightarrow> db \<Rightarrow> (error + int) \<times> db" where
  "cart_ensure others d =
     (case select_active_cart d of
        Some cartId \<Rightarrow> (Inr cartId, d)
      | None \<Rightarrow> insert_cart (others d))"

subsection \<open>\<open>cart.add_item\<close>\<close>

text \<open>
  \<open>const cartId = cart.rows.length ? cart.rows[0].id : (await client.query("INSERT INTO
  carts ...")).rows[0].id\<close>: the active cart, or a new one.
\<close>

definition active_or_new_cart :: "db \<Rightarrow> (error + int) \<times> db" where
  "active_or_new_cart d =
     (case select_active_cart d of
        Some cid \<Rightarrow> (Inr cid, d)
      | None \<Rightarrow> insert_cart d)"

definition cart_add_item_body :: "int \<Rightarrow> int option \<Rightarrow> db \<Rightarrow> (error + int) \<times> db" where
  "cart_add_item_body productId quantity d =
     (case active_or_new_cart d of
        (Inl e, d1) \<Rightarrow> (Inl e, d1)
      | (Inr cartId, d1) \<Rightarrow>
          let qty = (case quantity of Some q \<Rightarrow> q | None \<Rightarrow> 1)
          in if \<not> int4 productId then (Inl NumericValueOutOfRange, d1)
             else
               (case select_product d1 productId of
                  None \<Rightarrow> (Inl ProductNotFound, d1)
                | Some pr \<Rightarrow>
                    let price = p_price_cents pr;
                        stock = p_stock pr;
                        existingQty =
                          (case select_cart_line d1 cartId productId of
                             Some l \<Rightarrow> ci_quantity l
                           | None \<Rightarrow> 0)
                    in if existingQty + qty > stock then (Inl NotEnoughStock, d1)
                       else
                         (case upsert_cart_item d1 cartId productId qty price of
                            Inl e \<Rightarrow> (Inl e, d1)
                          | Inr d2 \<Rightarrow> (Inr cartId, d2))))"

definition cart_add_item :: "int \<Rightarrow> int option \<Rightarrow> db \<Rightarrow> (error + int) \<times> db" where
  "cart_add_item productId quantity = transaction (cart_add_item_body productId quantity)"

subsection \<open>\<open>cart.view\<close>\<close>

text \<open>
  \<open>items.rows.reduce((s, r) => s + Number(r.line_total), 0)\<close> adds JavaScript
  numbers, which are IEEE 754 doubles: each \<open>+\<close> returns the double nearest to the exact
  sum, a tie going to the even significand, and \<open>Infinity\<close> beyond the largest double.
  \<open>js_ulp a\<close> is the distance between neighbouring doubles at the magnitude \<open>a\<close> (1 below
  \<open>2^53\<close>); \<open>js_number x\<close> is the double nearest to the integer \<open>x\<close>, \<open>None\<close> when that
  is not finite (\<open>JSON.stringify\<close> writes \<open>null\<close> for it). Every integer up to \<open>2^53\<close>
  in magnitude is a double. The line totals are \<open>INTEGER\<close> values, hence doubles.
\<close>

function js_ulp :: "int \<Rightarrow> int" where
  "js_ulp a = (if a < 2 ^ 53 then 1 else 2 * js_ulp (a div 2))"
  by pat_completeness auto
termination
  by (relation "measure nat") auto

declare js_ulp.simps [simp del]

definition js_number :: "int \<Rightarrow> int option" where
  "js_number x =
     (if \<bar>x\<bar> \<le> 2 ^ 53 then Some x
      else
        let u = js_ulp \<bar>x\<bar>;
            q = \<bar>x\<bar> div u;
            r = \<bar>x\<bar> mod u;
            m = (if u < 2 * r \<or> (2 * r = u \<and> odd q) then q + 1 else q)
        in if 2 ^ 1024 \<le> m * u then None else Some (sgn x * (m * u)))"

definition js_add :: "int option \<Rightarrow> int \<Rightarrow> int option" where
  "js_add s x = (case s of None \<Rightarrow> None | Some a \<Rightarrow> js_number (a + x))"

record view_result =
  v_cartId :: "int option"
  v_items :: "view_row list"
  v_total_cents :: "int option"

definition cart_view :: "db \<Rightarrow> (error + view_result) \<times> db" where
  "cart_view d =
     (case select_active_cart d of
        None \<Rightarrow> (Inr \<lparr>v_cartId = None, v_items = [], v_total_cents = Some 0\<rparr>, d)
      | Some cartId \<Rightarrow>
          (case select_view_rows d cartId of
             Inl e \<Rightarrow> (Inl e, d)
           | Inr rows \<Rightarrow>
               (Inr \<lparr>v_cartId = Some cartId, v_items = rows,
                     v_total_cents = foldl (\<lambda>s r. js_add s (r_line_total r)) (Some 0) rows\<rparr>, d)))"

subsection \<open>\<open>cart.checkout\<close>\<close>

text \<open>
  The first loop reads each line's product with \<open>FOR UPDATE\<close> and throws at the first
  line whose quantity exceeds the stock read (0 when the row is missing). It is returned
  together with the product ids it has visited, in order.
\<close>

definition stock_for_update :: "db \<Rightarrow> int \<Rightarrow> int" where
  "stock_for_update d pid =
     (case select_product d pid of
        Some p \<Rightarrow> p_stock p
      | None \<Rightarrow> 0)"

fun lock_and_check :: "db \<Rightarrow> cart_item list \<Rightarrow> int list \<times> (error + unit)" where
  "lock_and_check d [] = ([], Inr ())"
| "lock_and_check d (it # its) =
     (let stock = stock_for_update d (ci_product_id it)
      in if stock < ci_quantity it then ([ci_product_id it], Inl OutOfStock)
         else (case lock_and_check d its of (ls, r) \<Rightarrow> (ci_product_id it # ls, r)))"

text \<open>The second loop: one order line and one stock update per cart line.\<close>

fun copy_lines :: "db \<Rightarrow> int \<Rightarrow> cart_item list \<Rightarrow> error + db" where
  "copy_lines d orderId [] = Inr d"
| "copy_lines d orderId (it # its) =
     (case insert_order_item d orderId (ci_product_id it) (ci_quantity it) (ci_price_cents it) of
        Inl e \<Rightarrow> Inl e
      | Inr d1 \<Rightarrow>
          (case update_stock d1 (ci_quantity it) (ci_product_id it) of
             Inl e \<Rightarrow> Inl e
           | Inr d2 \<Rightarrow> copy_lines d2 orderId its))"

definition cart_checkout_body :: "db \<Rightarrow> (error + int) \<times> db" where
  "cart_checkout_body d =
     (case select_active_cart d of
        None \<Rightarrow> (Inl NoActiveCart, d)
      | Some cartId \<Rightarrow>
          let items = select_cart_items d cartId
          in if items = [] then (Inl CartIsEmpty, d)
             else
               (case snd (lock_and_check d items) of
                  Inl e \<Rightarrow> (Inl e, d)
                | Inr u \<Rightarrow>
                    (case insert_order d of
                       (Inl e, d1) \<Rightarrow> (Inl e, d1)
                     | (Inr orderId, d1) \<Rightarrow>
                         (case copy_lines d1 orderId items of
                            Inl e \<Rightarrow> (Inl e, d1)
                          | Inr d2 \<Rightarrow> (Inr orderId, mark_checked_out d2 cartId)))))"

definition cart_checkout :: "db \<Rightarrow> (error + int) \<times> db" where
  "cart_checkout = transaction cart_checkout_body"

text \<open>The product ids a checkout visits with \<open>FOR UPDATE\<close>, in the order it visits them.\<close>

definition checkout_lock_order :: "db \<Rightarrow> int list" where
  "checkout_lock_order d =
     (case select_active_cart d of
        None \<Rightarrow> []
      | Some cartId \<Rightarrow> fst (lock_and_check d (select_cart_items d cartId)))"

subsection \<open>\<open>cart.remove_item\<close>\<close>

definition cart_remove_item_body :: "int \<Rightarrow> db \<Rightarrow> (error + bool) \<times> db" where
  "cart_remove_item_body productId d =
     (case select_active_cart d of
        None \<Rightarrow> (Inr False, d)
      | Some cartId \<Rightarrow>
          if \<not> int4 productId then (Inl NumericValueOutOfRange, d)
          else (case delete_cart_line d cartId productId of
                  (n, d1) \<Rightarrow> (Inr (n > 0), d1)))"

definition cart_remove_item :: "int \<Rightarrow> db \<Rightarrow> (error + bool) \<times> db" where
  "cart_remove_item productId = transaction (cart_remove_item_body productId)"

section \<open>Integrity of the store\<close>

text \<open>
  What \<open>db/init.sql\<close> declares for each table (keys, foreign keys, \<open>CHECK\<close>s, the column
  type), that the pinned customer exists (the seed inserts it), and that each sequence
  is ahead of the ids it has handed out and has not reached its limit.
\<close>

definition products_ok :: "db \<Rightarrow> bool" where
  "products_ok d =
     (distinct (map p_id (products d)) \<and>
      (\<forall>p \<in> set (products d).
         int4 (p_id p) \<and> int4 (p_price_cents p) \<and> int4 (p_stock p) \<and>
         0 \<le> p_price_cents p \<and> 0 \<le> p_stock p))"

definition carts_ok :: "db \<Rightarrow> bool" where
  "carts_ok d =
     (the_customer \<in> set (customers d) \<and>
      distinct (map c_id (carts d)) \<and>
      distinct (map c_customer_id (filter (\<lambda>c. c_status c = Active) (carts d))) \<and>
      int4 (carts_id_seq d) \<and>
      (\<forall>c \<in> set (carts d). c_customer_id c \<in> set (customers d) \<and> c_id c < carts_id_seq d))"

definition cart_items_ok :: "db \<Rightarrow> bool" where
  "cart_items_ok d =
     (distinct (map (\<lambda>ci. (ci_cart_id ci, ci_product_id ci)) (cart_items d)) \<and>
      (\<forall>ci \<in> set (cart_items d).
         ci_cart_id ci \<in> set (map c_id (carts d)) \<and>
         ci_product_id ci \<in> set (map p_id (products d)) \<and>
         0 < ci_quantity ci \<and> int4 (ci_quantity ci) \<and>
         0 \<le> ci_price_cents ci \<and> int4 (ci_price_cents ci)))"

definition orders_ok :: "db \<Rightarrow> bool" where
  "orders_ok d =
     (distinct (map o_id (orders d)) \<and>
      int4 (orders_id_seq d) \<and>
      (\<forall>ord \<in> set (orders d). o_customer_id ord \<in> set (customers d) \<and> o_id ord < orders_id_seq d))"

definition order_items_ok :: "db \<Rightarrow> bool" where
  "order_items_ok d =
     (distinct (map (\<lambda>oi. (oi_order_id oi, oi_product_id oi)) (order_items d)) \<and>
      (\<forall>oi \<in> set (order_items d).
         oi_order_id oi \<in> set (map o_id (orders d)) \<and>
         oi_product_id oi \<in> set (map p_id (products d)) \<and>
         0 < oi_quantity oi \<and> 0 \<le> oi_price_cents oi))"

definition wf_db :: "db \<Rightarrow> bool" where
  "wf_db d =
     (products_ok d \<and> carts_ok d \<and> cart_items_ok d \<and> orders_ok d \<and> order_items_ok d)"

text \<open>The tables of two stores agree (their sequences may differ).\<close>

definition same_tables :: "db \<Rightarrow> db \<Rightarrow> bool" where
  "same_tables d d' =
     (products d' = products d \<and> customers d' = customers d \<and> carts d' = carts d \<and>
      cart_items d' = cart_items d \<and> orders d' = orders d \<and> order_items d' = order_items d)"

text \<open>\<open>Product.stock \<ge> 0\<close> for every product.\<close>

definition stock_floor :: "db \<Rightarrow> bool" where
  "stock_floor d = (\<forall>p \<in> set (products d). 0 \<le> p_stock p)"

text \<open>A call of one of the three tools that the stock floor is stated for, and its effect.\<close>

datatype call =
    AddItem int "int option"
  | Checkout
  | DirectPurchase int "int option"

fun exec_call :: "call \<Rightarrow> db \<Rightarrow> db" where
  "exec_call (AddItem productId quantity) d = snd (cart_add_item productId quantity d)"
| "exec_call Checkout d = snd (cart_checkout d)"
| "exec_call (DirectPurchase productId quantity) d = snd (create_order productId quantity d)"

fun exec_calls :: "call list \<Rightarrow> db \<Rightarrow> db" where
  "exec_calls [] d = d"
| "exec_calls (c # cs) d = exec_calls cs (exec_call c d)"

section \<open>Sample stores\<close>

text \<open>
  A two-product shop with the seeded customer; the same shop with an active cart
  holding one line per product (the line of product 2 was added first); and that cart
  after product 2 has sold out.
\<close>

definition shop :: db where
  "shop = \<lparr>products = [\<lparr>p_id = 1, p_name = ''Tee'', p_price_cents = 100, p_stock = 10\<rparr>,
                         \<lparr>p_id = 2, p_name = ''Cap'', p_price_cents = 500, p_stock = 1\<rparr>],
           customers = [1], carts = [], cart_items = [], orders = [], order_items = [],
           carts_id_seq = 1, orders_id_seq = 1\<rparr>"

definition shop_cart :: db where
  "shop_cart = shop\<lparr>carts := [\<lparr>c_id = 1, c_customer_id = 1, c_status = Active\<rparr>],
       cart_items := [\<lparr>ci_cart_id = 1, ci_product_id = 2, ci_quantity = 1, ci_price_cents = 500\<rparr>,
                      \<lparr>ci_cart_id = 1, ci_product_id = 1, ci_quantity = 2, ci_price_cents = 100\<rparr>],
       carts_id_seq := 2\<rparr>"

definition shop_short :: db where
  "shop_short = shop_cart\<lparr>products :=
       [\<lparr>p_id = 1, p_name = ''Tee'', p_price_cents = 100, p_stock = 10\<rparr>,
        \<lparr>p_id = 2, p_name = ''Cap'', p_price_cents = 500, p_stock = 0\<rparr>]\<rparr>"

text \<open>Two lines are added and bought; then one purchase too large, and one that fits.\<close>

definition demo_calls :: "call list" where
  "demo_calls = [AddItem 1 (Some 2), AddItem 2 (Some 1), Checkout,
     DirectPurchase 1 (Some 11), DirectPurchase 1 (Some 8)]"

lemmas wf_defs =
  wf_db_def products_ok_def carts_ok_def cart_items_ok_def orders_ok_def order_items_ok_def
  int4_def the_customer_def

lemma wf_shop: "wf_db shop"
  by (simp add: wf_defs shop_def)

lemma wf_shop_cart: "wf_db shop_cart"
  by (simp add: wf_defs shop_cart_def shop_def)

section \<open>Rollback\<close>

lemma rollback_tables [simp]:
  "products (rollback d d') = products d" "customers (rollback d d') = customers d"
  "carts (rollback d d') = carts d" "cart_items (rollback d d') = cart_items d"
  "orders (rollback d d') = orders d" "order_items (rollback d d') = order_items d"
  by (simp_all add: rollback_def)

lemma rollback_same [simp]: "rollback d d = d"
  by (simp add: rollback_def)

section \<open>Checkout is all-or-nothing\<close>

lemma lock_and_check_fails:
  "\<exists>it \<in> set items. stock_for_update d (ci_product_id it) < ci_quantity it
   \<Longrightarrow> snd (lock_and_check d items) = Inl OutOfStock"
proof (induction items)
  case Nil
  then show ?case by simp
next
  case (Cons a items)
  show ?case
  proof (cases "stock_for_update d (ci_product_id a) < ci_quantity a")
    case True
    then show ?thesis by simp
  next
    case False
    with Cons.prems have "\<exists>it \<in> set items. stock_for_update d (ci_product_id it) < ci_quantity it"
      by auto
    then have "snd (lock_and_check d items) = Inl OutOfStock" by (rule Cons.IH)
    with False show ?thesis by (simp add: split_beta)
  qed
qed

text \<open>
  C1. When the active cart has a line whose quantity exceeds the current stock of its
  product, \<open>cart.checkout\<close> ends with \<open>Out of stock\<close> and the store it leaves is the
  store it was called on, sequences included: no stock is changed, no order and no
  order line exists that did not before, the cart is still active and keeps its lines.
\<close>

theorem checkout_all_or_nothing:
  assumes "select_active_cart d = Some cartId"
    and "\<exists>it \<in> set (select_cart_items d cartId). \<exists>p.
           select_product d (ci_product_id it) = Some p \<and> p_stock p < ci_quantity it"
  shows "cart_checkout d = (Inl OutOfStock, d)"
proof -
  from assms(2) have ex: "\<exists>it \<in> set (select_cart_items d cartId).
      stock_for_update d (ci_product_id it) < ci_quantity it"
    by (force simp: stock_for_update_def)
  then have ne: "select_cart_items d cartId \<noteq> []" by auto
  from ex have "snd (lock_and_check d (select_cart_items d cartId)) = Inl OutOfStock"
    by (rule lock_and_check_fails)
  with assms(1) ne show ?thesis
    by (simp add: cart_checkout_def transaction_def cart_checkout_body_def)
qed

theorem checkout_all_or_nothing_witness:
  "select_active_cart shop_short = Some 1 \<and>
   cart_checkout shop_short = (Inl OutOfStock, shop_short)"
  using checkout_all_or_nothing [of shop_short 1]
  by (simp add: shop_short_def shop_cart_def shop_def select_active_cart_def the_customer_def
      select_cart_items_def select_product_def)

section \<open>What each statement leaves alone\<close>

lemma insert_cart_frame [simp]:
  "products (snd (insert_cart d)) = products d"
  "customers (snd (insert_cart d)) = customers d"
  "cart_items (snd (insert_cart d)) = cart_items d"
  "orders (snd (insert_cart d)) = orders d"
  "order_items (snd (insert_cart d)) = order_items d"
  "orders_id_seq (snd (insert_cart d)) = orders_id_seq d"
  by (simp_all add: insert_cart_def Let_def)

lemma insert_order_frame [simp]:
  "products (snd (insert_order d)) = products d"
  "customers (snd (insert_order d)) = customers d"
  "carts (snd (insert_order d)) = carts d"
  "cart_items (snd (insert_order d)) = cart_items d"
  "order_items (snd (insert_order d)) = order_items d"
  "carts_id_seq (snd (insert_order d)) = carts_id_seq d"
  by (simp_all add: insert_order_def Let_def)

lemma insert_cart_frameD:
  assumes "insert_cart d = (r, d1)"
  shows "products d1 = products d" "customers d1 = customers d" "cart_items d1 = cart_items d"
    "orders d1 = orders d" "order_items d1 = order_items d" "orders_id_seq d1 = orders_id_seq d"
  using insert_cart_frame [of d] assms by simp_all

lemma insert_order_frameD:
  assumes "insert_order d = (r, d1)"
  shows "products d1 = products d" "customers d1 = customers d" "carts d1 = carts d"
    "cart_items d1 = cart_items d" "order_items d1 = order_items d"
    "carts_id_seq d1 = carts_id_seq d"
  using insert_order_frame [of d] assms by simp_all

lemma upsert_cart_item_frame:
  assumes "upsert_cart_item d cartId pid qty price = Inr d'"
  shows "products d' = products d" "customers d' = customers d" "carts d' = carts d"
    "orders d' = orders d" "order_items d' = order_items d"
    "carts_id_seq d' = carts_id_seq d" "orders_id_seq d' = orders_id_seq d"
  using assms by (auto simp: upsert_cart_item_def Let_def split: if_splits)

lemma insert_order_item_frame:
  assumes "insert_order_item d orderId pid qty price = Inr d'"
  shows "products d' = products d" "customers d' = customers d" "carts d' = carts d"
    "cart_items d' = cart_items d" "orders d' = orders d"
    "carts_id_seq d' = carts_id_seq d" "orders_id_seq d' = orders_id_seq d"
  using assms by (auto simp: insert_order_item_def split: if_splits)

lemma update_stock_frame:
  assumes "update_stock d qty pid = Inr d'"
  shows "customers d' = customers d" "carts d' = carts d" "cart_items d' = cart_items d"
    "orders d' = orders d" "order_items d' = order_items d"
    "carts_id_seq d' = carts_id_seq d" "orders_id_seq d' = orders_id_seq d"
  using assms by (auto simp: update_stock_def split: if_splits)

lemma mark_checked_out_frame [simp]:
  "products (mark_checked_out d c) = products d"
  "customers (mark_checked_out d c) = customers d"
  "cart_items (mark_checked_out d c) = cart_items d"
  "orders (mark_checked_out d c) = orders d"
  "order_items (mark_checked_out d c) = order_items d"
  "carts_id_seq (mark_checked_out d c) = carts_id_seq d"
  "orders_id_seq (mark_checked_out d c) = orders_id_seq d"
  by (simp_all add: mark_checked_out_def)

lemma copy_lines_frame:
  "copy_lines d orderId items = Inr d' \<Longrightarrow>
     customers d' = customers d \<and> carts d' = carts d \<and> cart_items d' = cart_items d \<and>
     orders d' = orders d \<and> carts_id_seq d' = carts_id_seq d \<and> orders_id_seq d' = orders_id_seq d"
proof (induction items arbitrary: d)
  case Nil
  then show ?case by simp
next
  case (Cons it its)
  from Cons.prems obtain d1 d2 where
    1: "insert_order_item d orderId (ci_product_id it) (ci_quantity it) (ci_price_cents it) = Inr d1"
    and 2: "update_stock d1 (ci_quantity it) (ci_product_id it) = Inr d2"
    and 3: "copy_lines d2 orderId its = Inr d'"
    by (auto split: sum.splits)
  from Cons.IH [OF 3] insert_order_item_frame [OF 1] update_stock_frame [OF 2]
  show ?case by simp
qed

section \<open>The stock floor\<close>

lemma stock_floor_products: "products d' = products d \<Longrightarrow> stock_floor d' = stock_floor d"
  by (simp add: stock_floor_def)

lemma update_stock_floor:
  assumes "stock_floor d" and "update_stock d qty pid = Inr d'"
  shows "stock_floor d'"
proof -
  from assms(2) have nocheck: "\<not> list_ex (\<lambda>p. p_id p = pid \<and> p_stock p - qty < 0) (products d)"
    and d': "products d' = map (\<lambda>p. if p_id p = pid then p\<lparr>p_stock := p_stock p - qty\<rparr> else p) (products d)"
    by (auto simp: update_stock_def split: if_splits)
  show ?thesis
    unfolding stock_floor_def d'
  proof
    fix p' assume "p' \<in> set (map (\<lambda>p. if p_id p = pid then p\<lparr>p_stock := p_stock p - qty\<rparr> else p) (products d))"
    then obtain p where p: "p \<in> set (products d)"
      and p': "p' = (if p_id p = pid then p\<lparr>p_stock := p_stock p - qty\<rparr> else p)"
      by auto
    from assms(1) p have "0 \<le> p_stock p" by (simp add: stock_floor_def)
    moreover from nocheck p have "p_id p = pid \<Longrightarrow> \<not> p_stock p - qty < 0"
      by (auto simp: list_ex_iff)
    ultimately show "0 \<le> p_stock p'" using p' by auto
  qed
qed

lemma copy_lines_floor:
  "stock_floor d \<Longrightarrow> copy_lines d orderId items = Inr d' \<Longrightarrow> stock_floor d'"
proof (induction items arbitrary: d)
  case Nil
  then show ?case by simp
next
  case (Cons it its)
  from Cons.prems(2) obtain d1 d2 where
    1: "insert_order_item d orderId (ci_product_id it) (ci_quantity it) (ci_price_cents it) = Inr d1"
    and 2: "update_stock d1 (ci_quantity it) (ci_product_id it) = Inr d2"
    and 3: "copy_lines d2 orderId its = Inr d'"
    by (auto split: sum.splits)
  from Cons.prems(1) insert_order_item_frame(1) [OF 1] have "stock_floor d1"
    by (simp add: stock_floor_def)
  then have "stock_floor d2" using 2 by (rule update_stock_floor)
  then show ?case using 3 by (rule Cons.IH)
qed

lemma transaction_floor:
  assumes "stock_floor d" and "\<And>r d'. body d = (Inr r, d') \<Longrightarrow> stock_floor d'"
  shows "stock_floor (snd (transaction body d))"
proof (cases "body d")
  case (Pair res d')
  show ?thesis
  proof (cases res)
    case (Inl e)
    with Pair assms(1) show ?thesis by (simp add: transaction_def stock_floor_def)
  next
    case (Inr r)
    with Pair assms(2) show ?thesis by (simp add: transaction_def)
  qed
qed

lemma add_item_body_products:
  assumes "cart_add_item_body productId quantity d = (Inr r, d')"
  shows "products d' = products d"
proof -
  obtain res d1 where c: "active_or_new_cart d = (res, d1)"
    by (cases "active_or_new_cart d")
  then have p1: "products d1 = products d"
    unfolding active_or_new_cart_def
    by (cases "select_active_cart d") (auto dest: insert_cart_frameD)
  from assms c obtain cartId qty price where "upsert_cart_item d1 cartId productId qty price = Inr d'"
    unfolding cart_add_item_body_def
    by (auto simp: Let_def split: sum.splits option.splits if_splits)
  from upsert_cart_item_frame(1) [OF this] p1 show ?thesis by simp
qed

lemma add_item_floor: "stock_floor d \<Longrightarrow> stock_floor (snd (cart_add_item productId quantity d))"
  unfolding cart_add_item_def
  by (rule transaction_floor) (auto dest: add_item_body_products simp: stock_floor_def)

lemma checkout_body_floor:
  assumes "stock_floor d" and "cart_checkout_body d = (Inr r, d')"
  shows "stock_floor d'"
proof -
  from assms(2) obtain cartId orderId d1 d2 where
    io: "insert_order d = (Inr orderId, d1)"
    and cl: "copy_lines d1 orderId (select_cart_items d cartId) = Inr d2"
    and d': "d' = mark_checked_out d2 cartId"
    unfolding cart_checkout_body_def
    by (auto simp: Let_def split: option.splits if_splits sum.splits prod.splits)
  from io have "products d1 = products d"
    by (rule insert_order_frameD)
  with assms(1) have "stock_floor d1" by (simp add: stock_floor_def)
  then have "stock_floor d2" using cl by (rule copy_lines_floor)
  with d' show ?thesis by (simp add: stock_floor_def)
qed

lemma checkout_floor: "stock_floor d \<Longrightarrow> stock_floor (snd (cart_checkout d))"
  unfolding cart_checkout_def
  by (rule transaction_floor) (auto dest: checkout_body_floor)

lemma create_order_body_floor:
  assumes "stock_floor d" and "create_order_body productId quantity d = (Inr r, d')"
  shows "stock_floor d'"
proof -
  from assms(2) obtain orderId d1 d2 qty price where
    io: "insert_order d = (Inr orderId, d1)"
    and oi: "insert_order_item d1 orderId productId qty price = Inr d2"
    and us: "update_stock d2 qty productId = Inr d'"
    unfolding create_order_body_def
    by (auto simp: Let_def split: option.splits if_splits sum.splits prod.splits)
  from io have "products d1 = products d"
    by (rule insert_order_frameD)
  with insert_order_item_frame(1) [OF oi] assms(1) have "stock_floor d2"
    by (simp add: stock_floor_def)
  then show ?thesis using us by (rule update_stock_floor)
qed

lemma create_order_floor: "stock_floor d \<Longrightarrow> stock_floor (snd (create_order productId quantity d))"
  unfolding create_order_def
  by (rule transaction_floor) (auto dest: create_order_body_floor)

lemma exec_call_floor: "stock_floor d \<Longrightarrow> stock_floor (exec_call c d)"
  by (cases c) (simp_all add: add_item_floor checkout_floor create_order_floor)

lemma exec_calls_floor: "stock_floor d \<Longrightarrow> stock_floor (exec_calls cs d)"
  by (induction cs arbitrary: d) (simp_all add: exec_call_floor)

text \<open>
  C2. Starting from a store in which no product has negative stock, after any sequence
  of \<open>cart.add_item\<close>, \<open>cart.checkout\<close> and \<open>create.order\<close> calls, with any
  arguments and whether the calls succeed or fail, no product has negative stock: at
  the end of the sequence and after each of its calls (after the first \<open>n\<close> calls, for
  every \<open>n\<close>).
\<close>

theorem stock_never_negative:
  assumes "stock_floor d"
  shows "stock_floor (exec_calls (take n cs) d) \<and> stock_floor (exec_calls cs d)"
  using assms by (simp add: exec_calls_floor)

theorem stock_never_negative_witness:
  "stock_floor shop \<and>
   stock_floor (exec_calls (take 2 demo_calls) shop) \<and>
   stock_floor (exec_calls demo_calls shop)"
proof -
  have h: "stock_floor shop"
    by (simp add: stock_floor_def shop_def)
  from h stock_never_negative [OF h, of 2 demo_calls] show ?thesis by blast
qed

section \<open>Commit and rollback\<close>

lemma transaction_Inr:
  "transaction body d = (Inr r, d') \<longleftrightarrow> body d = (Inr r, d')"
  by (auto simp: transaction_def split: prod.splits sum.splits)

lemma transaction_Inl:
  "body d = (Inl e, d) \<Longrightarrow> transaction body d = (Inl e, d)"
  by (simp add: transaction_def)

lemma transaction_keeps:
  assumes "f (snd (body d)) = f d" and "\<And>d'. f (rollback d d') = f d"
  shows "f (snd (transaction body d)) = f d"
  using assms by (auto simp: transaction_def split: prod.splits sum.splits)

section \<open>Buy now\<close>

lemma insert_order_Inr:
  assumes "insert_order d = (Inr orderId, d1)"
  shows "orderId = orders_id_seq d"
    and "d1 = d\<lparr>orders := orders d @ [\<lparr>o_id = orders_id_seq d, o_customer_id = the_customer\<rparr>],
                orders_id_seq := orders_id_seq d + 1\<rparr>"
  using assms by (auto simp: insert_order_def Let_def split: if_splits)

lemma insert_order_item_Inr:
  assumes "insert_order_item d orderId pid qty price = Inr d'"
  shows "d' = d\<lparr>order_items := order_items d @
           [\<lparr>oi_order_id = orderId, oi_product_id = pid, oi_quantity = qty,
             oi_price_cents = price\<rparr>]\<rparr>"
  using assms by (auto simp: insert_order_item_def split: if_splits)

lemma update_stock_Inr:
  assumes "update_stock d qty pid = Inr d'"
  shows "d' = d\<lparr>products :=
           map (\<lambda>p. if p_id p = pid then p\<lparr>p_stock := p_stock p - qty\<rparr> else p) (products d)\<rparr>"
  using assms by (auto simp: update_stock_def split: if_splits)

lemma create_order_body_Inr:
  assumes "create_order_body productId (Some qty) d = (Inr orderId, d')"
  shows "\<exists>pr. select_product d productId = Some pr \<and> qty \<le> p_stock pr \<and>
           orderId = orders_id_seq d \<and>
           d' = d\<lparr>orders := orders d @ [\<lparr>o_id = orders_id_seq d, o_customer_id = the_customer\<rparr>],
                  order_items := order_items d @
                    [\<lparr>oi_order_id = orders_id_seq d, oi_product_id = productId,
                      oi_quantity = qty, oi_price_cents = p_price_cents pr\<rparr>],
                  products := map (\<lambda>p. if p_id p = productId
                      then p\<lparr>p_stock := p_stock p - qty\<rparr> else p) (products d),
                  orders_id_seq := orders_id_seq d + 1\<rparr>"
proof -
  from assms obtain pr d1 d2 where
    pr: "select_product d productId = Some pr" and st: "\<not> p_stock pr < qty"
    and io: "insert_order d = (Inr orderId, d1)"
    and oi: "insert_order_item d1 orderId productId qty (p_price_cents pr) = Inr d2"
    and us: "update_stock d2 qty productId = Inr d'"
    unfolding create_order_body_def
    by (auto simp: Let_def split: option.splits if_splits sum.splits prod.splits)
  note a = insert_order_Inr [OF io] insert_order_item_Inr [OF oi] update_stock_Inr [OF us]
  show ?thesis
    using pr st by (simp add: a)
qed

lemma create_order_body_carts:
  "carts (snd (create_order_body productId quantity d)) = carts d \<and>
   cart_items (snd (create_order_body productId quantity d)) = cart_items d"
proof -
  obtain r d1 where io: "insert_order d = (r, d1)" by (cases "insert_order d")
  note f1 = insert_order_frameD [OF io]
  show ?thesis
    unfolding create_order_body_def Let_def io
    by (clarsimp simp: f1 insert_order_item_frame update_stock_frame
        split: option.split sum.split)
qed

lemma create_order_succeeds:
  assumes wf: "wf_db d" and pr: "select_product d productId = Some pr"
    and q: "0 < qty" "qty \<le> p_stock pr"
  shows "\<exists>d'. create_order_body productId (Some qty) d = (Inr (orders_id_seq d), d')"
proof -
  from pr have mem: "pr \<in> set (products d)" and pid: "p_id pr = productId"
    by (auto simp: select_product_def find_Some_iff in_set_conv_nth)
  from wf have pok: "products_ok d" and ook: "orders_ok d" and oiok: "order_items_ok d" and cok: "carts_ok d"
    by (simp_all add: wf_db_def)
  from pok mem pid have r: "int4 productId" "int4 (p_stock pr)" "0 \<le> p_price_cents pr"
    by (auto simp: products_ok_def)
  with q have q4: "int4 qty" by (simp add: int4_def)
  from ook have fresh: "orders_id_seq d \<notin> set (map o_id (orders d))" and s4: "int4 (orders_id_seq d)"
    by (auto simp: orders_ok_def)
  from cok have cust: "the_customer \<in> set (customers d)" by (simp add: carts_ok_def)
  let ?d1 = "d\<lparr>orders_id_seq := orders_id_seq d + 1,
      orders := orders d @ [\<lparr>o_id = orders_id_seq d, o_customer_id = the_customer\<rparr>]\<rparr>"
  have io: "insert_order d = (Inr (orders_id_seq d), ?d1)"
    using fresh s4 cust by (simp add: insert_order_def Let_def)
  from oiok fresh have nodup: "\<not> list_ex (\<lambda>oi. oi_order_id oi = orders_id_seq d \<and> oi_product_id oi = productId) (order_items d)"
    unfolding order_items_ok_def list_ex_iff by force
  from mem pid have pin: "productId \<in> set (map p_id (products d))" by auto
  let ?d2 = "?d1\<lparr>order_items := order_items ?d1 @
             [\<lparr>oi_order_id = orders_id_seq d, oi_product_id = productId, oi_quantity = qty,
               oi_price_cents = p_price_cents pr\<rparr>]\<rparr>"
  have oi: "insert_order_item ?d1 (orders_id_seq d) productId qty (p_price_cents pr) = Inr ?d2"
    using q4 q r nodup pin by (simp add: insert_order_item_def)
  have uniq: "\<forall>p \<in> set (products d). p_id p = productId \<longrightarrow> p = pr"
    using pok mem pid by (auto simp: products_ok_def distinct_map inj_on_def)
  have a: "\<not> list_ex (\<lambda>p. p_id p = productId \<and> \<not> int4 (p_stock p - qty)) (products d)"
    using q r uniq unfolding list_ex_iff int4_def by force
  have b: "\<not> list_ex (\<lambda>p. p_id p = productId \<and> p_stock p - qty < 0) (products d)"
    using q uniq unfolding list_ex_iff by force
  have us: "update_stock ?d2 qty productId = Inr (?d2\<lparr>products :=
      map (\<lambda>p. if p_id p = productId then p\<lparr>p_stock := p_stock p - qty\<rparr> else p) (products d)\<rparr>)"
    using q4 a b by (simp add: update_stock_def)
  have "\<not> p_stock pr < qty" using q by simp
  then show ?thesis
    unfolding create_order_body_def Let_def
    by (simp only: r pr io oi us option.case sum.case prod.case if_False if_True not_not) simp
qed

lemma create_order_rejects:
  assumes "select_product d productId = Some pr" and "p_stock pr < qty"
  shows "(\<exists>e. create_order productId (Some qty) d = (Inl e, d)) \<and>
    (int4 productId \<longrightarrow> create_order productId (Some qty) d = (Inl OutOfStock, d))"
proof (cases "int4 productId")
  case True
  with assms have "create_order_body productId (Some qty) d = (Inl OutOfStock, d)"
    by (simp add: create_order_body_def)
  then have "create_order productId (Some qty) d = (Inl OutOfStock, d)"
    unfolding create_order_def by (rule transaction_Inl)
  then show ?thesis by simp
next
  case False
  then have "create_order_body productId (Some qty) d = (Inl NumericValueOutOfRange, d)"
    by (simp add: create_order_body_def)
  then have "create_order productId (Some qty) d = (Inl NumericValueOutOfRange, d)"
    unfolding create_order_def by (rule transaction_Inl)
  with False show ?thesis by simp
qed

text \<open>The direct purchase does not read the cart tables: replacing them replaces them in
  the outcome and changes nothing else.\<close>

definition with_carts :: "cart list \<Rightarrow> cart_item list \<Rightarrow> db \<Rightarrow> db" where
  "with_carts cs cis d = d\<lparr>carts := cs, cart_items := cis\<rparr>"

lemma insert_order_with_carts:
  "insert_order (with_carts cs cis d) =
     (fst (insert_order d), with_carts cs cis (snd (insert_order d)))"
  by (simp add: insert_order_def with_carts_def Let_def)

lemma insert_order_item_with_carts:
  "insert_order_item (with_carts cs cis d) orderId pid qty price =
     map_sum id (with_carts cs cis) (insert_order_item d orderId pid qty price)"
  by (simp add: insert_order_item_def with_carts_def)

lemma update_stock_with_carts:
  "update_stock (with_carts cs cis d) qty pid =
     map_sum id (with_carts cs cis) (update_stock d qty pid)"
  by (simp add: update_stock_def with_carts_def)

lemma select_product_with_carts:
  "select_product (with_carts cs cis d) pid = select_product d pid"
  by (simp add: select_product_def with_carts_def)

lemma rollback_with_carts:
  "rollback (with_carts cs cis d) (with_carts cs cis d') = with_carts cs cis (rollback d d')"
  by (simp add: rollback_def with_carts_def)

lemma create_order_body_with_carts:
  "create_order_body productId quantity (with_carts cs cis d) =
     (fst (create_order_body productId quantity d),
      with_carts cs cis (snd (create_order_body productId quantity d)))"
proof -
  obtain res d1 where io: "insert_order d = (res, d1)" by (cases "insert_order d")
  then have io': "insert_order (with_carts cs cis d) = (res, with_carts cs cis d1)"
    by (simp add: insert_order_with_carts)
  show ?thesis
    unfolding create_order_body_def Let_def select_product_with_carts io io'
    by (simp add: insert_order_item_with_carts update_stock_with_carts
        split: option.split sum.split)
qed

lemma create_order_with_carts:
  "create_order productId quantity (with_carts cs cis d) =
     (fst (create_order productId quantity d),
      with_carts cs cis (snd (create_order productId quantity d)))"
  unfolding create_order_def transaction_def create_order_body_with_carts
  by (cases "create_order_body productId quantity d")
    (simp add: rollback_with_carts split: sum.split)

text \<open>
  C8. \<open>create.order\<close> (the direct purchase) on any store, for any product id and
  quantity: when the quantity exceeds the stock of the product the call fails and
  leaves the store as it was (with \<open>Out of stock\<close>, the product id being one the
  \<open>INTEGER\<close> key can hold); when it succeeds, the store differs from the one before by
  exactly one new order, one order line for that product at the product's current price,
  the product's stock lowered by the quantity, and the advanced order sequence; on a store
  that satisfies its schema it does succeed whenever the quantity is positive and at most
  the stock; and in every case, failed or not, the carts and cart lines are those from
  before the call, and they are not read: with any other carts and cart lines in the
  store the call has the same result and leaves the same store, those tables apart.
\<close>

theorem direct_purchase:
  "(\<forall>pr. select_product d productId = Some pr \<and> p_stock pr < qty \<longrightarrow>
       (\<exists>e. create_order productId (Some qty) d = (Inl e, d)) \<and>
       (int4 productId \<longrightarrow> create_order productId (Some qty) d = (Inl OutOfStock, d))) \<and>
   (\<forall>orderId d'. create_order productId (Some qty) d = (Inr orderId, d') \<longrightarrow>
       (\<exists>pr. select_product d productId = Some pr \<and> qty \<le> p_stock pr \<and>
          orderId = orders_id_seq d \<and>
          d' = d\<lparr>orders := orders d @ [\<lparr>o_id = orders_id_seq d, o_customer_id = the_customer\<rparr>],
                 order_items := order_items d @
                   [\<lparr>oi_order_id = orders_id_seq d, oi_product_id = productId,
                     oi_quantity = qty, oi_price_cents = p_price_cents pr\<rparr>],
                 products := map (\<lambda>p. if p_id p = productId
                     then p\<lparr>p_stock := p_stock p - qty\<rparr> else p) (products d),
                 orders_id_seq := orders_id_seq d + 1\<rparr>)) \<and>
   (\<forall>pr. wf_db d \<and> select_product d productId = Some pr \<and> 0 < qty \<and> qty \<le> p_stock pr \<longrightarrow>
       fst (create_order productId (Some qty) d) = Inr (orders_id_seq d)) \<and>
   carts (snd (create_order productId quantity d)) = carts d \<and>
   cart_items (snd (create_order productId quantity d)) = cart_items d \<and>
   create_order productId quantity (with_carts cs cis d) =
     (fst (create_order productId quantity d),
      with_carts cs cis (snd (create_order productId quantity d)))"
proof -
  have 1: "\<forall>pr. select_product d productId = Some pr \<and> p_stock pr < qty \<longrightarrow>
       (\<exists>e. create_order productId (Some qty) d = (Inl e, d)) \<and>
       (int4 productId \<longrightarrow> create_order productId (Some qty) d = (Inl OutOfStock, d))"
    using create_order_rejects by blast
  have 2: "\<forall>orderId d'. create_order productId (Some qty) d = (Inr orderId, d') \<longrightarrow>
       (\<exists>pr. select_product d productId = Some pr \<and> qty \<le> p_stock pr \<and>
          orderId = orders_id_seq d \<and>
          d' = d\<lparr>orders := orders d @ [\<lparr>o_id = orders_id_seq d, o_customer_id = the_customer\<rparr>],
                 order_items := order_items d @
                   [\<lparr>oi_order_id = orders_id_seq d, oi_product_id = productId,
                     oi_quantity = qty, oi_price_cents = p_price_cents pr\<rparr>],
                 products := map (\<lambda>p. if p_id p = productId
                     then p\<lparr>p_stock := p_stock p - qty\<rparr> else p) (products d),
                 orders_id_seq := orders_id_seq d + 1\<rparr>)"
  proof (intro allI impI)
    fix orderId d' assume "create_order productId (Some qty) d = (Inr orderId, d')"
    then have "create_order_body productId (Some qty) d = (Inr orderId, d')"
      by (simp add: create_order_def transaction_Inr)
    then show "\<exists>pr. select_product d productId = Some pr \<and> qty \<le> p_stock pr \<and>
          orderId = orders_id_seq d \<and>
          d' = d\<lparr>orders := orders d @ [\<lparr>o_id = orders_id_seq d, o_customer_id = the_customer\<rparr>],
                 order_items := order_items d @
                   [\<lparr>oi_order_id = orders_id_seq d, oi_product_id = productId,
                     oi_quantity = qty, oi_price_cents = p_price_cents pr\<rparr>],
                 products := map (\<lambda>p. if p_id p = productId
                     then p\<lparr>p_stock := p_stock p - qty\<rparr> else p) (products d),
                 orders_id_seq := orders_id_seq d + 1\<rparr>"
      by (rule create_order_body_Inr)
  qed
  have 3: "\<forall>pr. wf_db d \<and> select_product d productId = Some pr \<and> 0 < qty \<and> qty \<le> p_stock pr \<longrightarrow>
       fst (create_order productId (Some qty) d) = Inr (orders_id_seq d)"
  proof (intro allI impI)
    fix pr assume "wf_db d \<and> select_product d productId = Some pr \<and> 0 < qty \<and> qty \<le> p_stock pr"
    then obtain d' where "create_order_body productId (Some qty) d = (Inr (orders_id_seq d), d')"
      using create_order_succeeds by blast
    then show "fst (create_order productId (Some qty) d) = Inr (orders_id_seq d)"
      by (simp add: create_order_def transaction_def)
  qed
  have 4: "carts (snd (create_order productId quantity d)) = carts d"
    unfolding create_order_def
    by (rule transaction_keeps) (simp_all add: create_order_body_carts)
  have 5: "cart_items (snd (create_order productId quantity d)) = cart_items d"
    unfolding create_order_def
    by (rule transaction_keeps) (simp_all add: create_order_body_carts)
  note 6 = create_order_with_carts [of productId quantity cs cis d]
  from 1 2 3 4 5 6 show ?thesis by (intro conjI)
qed

theorem direct_purchase_witness:
  "wf_db shop \<and>
   fst (create_order 1 (Some 3) shop) = Inr 1 \<and>
   carts (snd (create_order 1 (Some 3) shop)) = carts shop \<and>
   cart_items (snd (create_order 1 (Some 3) shop)) = cart_items shop \<and>
   create_order 2 (Some 1) shop_short = (Inl OutOfStock, shop_short)"
  using direct_purchase [of shop 1 3 "Some 3"] direct_purchase [of shop_short 2 1 None] wf_shop
  by (simp add: select_product_def shop_def shop_short_def shop_cart_def int4_def)

section \<open>Removing a line\<close>

lemma find_None_filter: "find P xs = None \<Longrightarrow> filter P xs = [] \<and> filter (\<lambda>x. \<not> P x) xs = xs"
  by (induction xs) (auto split: if_splits)

lemma find_Some_filter: "find P xs = Some x \<Longrightarrow> filter P xs \<noteq> []"
  by (induction xs) (auto split: if_splits)

lemma find_filter_neg: "find P (filter (\<lambda>x. \<not> P x) xs) = None"
  by (induction xs) auto

lemma remove_item_present:
  assumes "int4 productId" and "select_active_cart d = Some cartId"
    and "select_cart_line d cartId productId = Some l"
  shows "cart_remove_item productId d =
     (Inr True, d\<lparr>cart_items :=
        filter (\<lambda>ci. \<not> (ci_cart_id ci = cartId \<and> ci_product_id ci = productId)) (cart_items d)\<rparr>)"
  using assms find_Some_filter [of "\<lambda>ci. ci_cart_id ci = cartId \<and> ci_product_id ci = productId" "cart_items d" l]
  by (simp add: cart_remove_item_def transaction_def cart_remove_item_body_def delete_cart_line_def
      select_cart_line_def)

lemma remove_item_absent:
  assumes "int4 productId" and "select_active_cart d = Some cartId"
    and "select_cart_line d cartId productId = None"
  shows "cart_remove_item productId d = (Inr False, d)"
  using assms find_None_filter [of "\<lambda>ci. ci_cart_id ci = cartId \<and> ci_product_id ci = productId" "cart_items d"]
  by (simp add: cart_remove_item_def transaction_def cart_remove_item_body_def delete_cart_line_def
      select_cart_line_def)

lemma remove_item_no_cart:
  assumes "select_active_cart d = None"
  shows "cart_remove_item productId d = (Inr False, d)"
  using assms
  by (simp add: cart_remove_item_def transaction_def cart_remove_item_body_def)

lemma remove_item_out_of_range:
  assumes "\<not> int4 productId" and "select_active_cart d = Some cartId"
  shows "cart_remove_item productId d = (Inl NumericValueOutOfRange, d)"
  using assms
  by (simp add: cart_remove_item_def transaction_def cart_remove_item_body_def)

lemma remove_item_keeps:
  "products (snd (cart_remove_item productId d)) = products d \<and>
   carts (snd (cart_remove_item productId d)) = carts d \<and>
   orders (snd (cart_remove_item productId d)) = orders d \<and>
   order_items (snd (cart_remove_item productId d)) = order_items d"
  by (simp add: cart_remove_item_def transaction_def cart_remove_item_body_def delete_cart_line_def
      split: option.split)

text \<open>
  C10, as stated, fails: with an active cart, a product id beyond the range of the
  \<open>INTEGER\<close> column \<open>cart_items.product_id\<close> has no line in the cart, yet the call
  does not report \<open>removed = false\<close>: the \<open>DELETE\<close> is rejected and the call ends with
  the store's error. (\<open>productId\<close> is validated as a positive integer only.)
\<close>

theorem remove_item_counterexample:
  "wf_db shop_cart \<and> select_active_cart shop_cart = Some 1 \<and>
   select_cart_line shop_cart 1 2147483648 = None \<and>
   cart_remove_item 2147483648 shop_cart = (Inl NumericValueOutOfRange, shop_cart)"
  using wf_shop_cart
  by (simp add: cart_remove_item_def transaction_def cart_remove_item_body_def
      select_active_cart_def select_cart_line_def shop_cart_def shop_def int4_def the_customer_def)

text \<open>
  C10, amended. For every store and every product id within the \<open>INTEGER\<close> range:
  when the active cart has a line for the product, \<open>cart.remove_item\<close> deletes the
  whole line, whatever its quantity, and reports \<open>removed = true\<close>; when the line is
  absent or there is no active cart it reports \<open>removed = false\<close> and returns the store
  as it was; a second identical call after any call reports \<open>removed = false\<close> and
  changes nothing. For every product id, in range or not, products (so every stock),
  carts, orders and order lines are those from before the call.
\<close>

theorem remove_item_idempotent:
  "(\<forall>cartId l. int4 productId \<and> select_active_cart d = Some cartId \<and>
        select_cart_line d cartId productId = Some l \<longrightarrow>
      cart_remove_item productId d =
        (Inr True, d\<lparr>cart_items :=
           filter (\<lambda>ci. \<not> (ci_cart_id ci = cartId \<and> ci_product_id ci = productId))
             (cart_items d)\<rparr>)) \<and>
   (\<forall>cartId. int4 productId \<and> select_active_cart d = Some cartId \<and>
        select_cart_line d cartId productId = None \<longrightarrow>
      cart_remove_item productId d = (Inr False, d)) \<and>
   (select_active_cart d = None \<longrightarrow> cart_remove_item productId d = (Inr False, d)) \<and>
   (int4 productId \<longrightarrow>
      cart_remove_item productId (snd (cart_remove_item productId d)) =
        (Inr False, snd (cart_remove_item productId d))) \<and>
   products (snd (cart_remove_item productId d)) = products d \<and>
   carts (snd (cart_remove_item productId d)) = carts d \<and>
   orders (snd (cart_remove_item productId d)) = orders d \<and>
   order_items (snd (cart_remove_item productId d)) = order_items d"
proof (intro conjI allI impI)
  assume r: "int4 productId"
  let ?d' = "snd (cart_remove_item productId d)"
  show "cart_remove_item productId ?d' = (Inr False, ?d')"
  proof (cases "select_active_cart d")
    case None
    then have "?d' = d" by (simp add: remove_item_no_cart)
    with None show ?thesis by (simp add: remove_item_no_cart)
  next
    case (Some cartId)
    let ?hit = "\<lambda>ci. ci_cart_id ci = cartId \<and> ci_product_id ci = productId"
    from r Some have d': "?d' = d\<lparr>cart_items := filter (\<lambda>ci. \<not> ?hit ci) (cart_items d)\<rparr>"
      by (simp add: cart_remove_item_def transaction_def cart_remove_item_body_def
          delete_cart_line_def)
    then have c: "select_active_cart ?d' = Some cartId"
      using Some by (simp add: select_active_cart_def)
    from d' have "select_cart_line ?d' cartId productId = None"
      by (auto simp: select_cart_line_def find_None_iff)
    with r c show ?thesis by (rule remove_item_absent)
  qed
qed (simp_all add: remove_item_present remove_item_absent remove_item_no_cart remove_item_keeps)

theorem remove_item_idempotent_witness:
  "int4 2 \<and> select_active_cart shop_cart = Some 1 \<and>
   select_cart_line shop_cart 1 2 =
     Some \<lparr>ci_cart_id = 1, ci_product_id = 2, ci_quantity = 1, ci_price_cents = 500\<rparr> \<and>
   fst (cart_remove_item 2 shop_cart) = Inr True \<and>
   cart_remove_item 2 (snd (cart_remove_item 2 shop_cart)) =
     (Inr False, snd (cart_remove_item 2 shop_cart)) \<and>
   select_active_cart shop = None \<and>
   cart_remove_item 2 shop = (Inr False, shop)"
proof -
  have a: "int4 2"
    by (simp add: int4_def)
  have b: "select_active_cart shop_cart = Some 1"
    by (simp add: select_active_cart_def shop_cart_def shop_def the_customer_def)
  have c: "select_cart_line shop_cart 1 2 =
      Some \<lparr>ci_cart_id = 1, ci_product_id = 2, ci_quantity = 1, ci_price_cents = 500\<rparr>"
    by (simp add: select_cart_line_def shop_cart_def shop_def)
  have e: "select_active_cart shop = None"
    by (simp add: select_active_cart_def shop_def)
  from a b c remove_item_idempotent [of 2 shop_cart]
  have "cart_remove_item 2 shop_cart =
      (Inr True, shop_cart\<lparr>cart_items :=
         filter (\<lambda>ci. \<not> (ci_cart_id ci = 1 \<and> ci_product_id ci = 2)) (cart_items shop_cart)\<rparr>)"
    by blast
  then have 1: "fst (cart_remove_item 2 shop_cart) = Inr True"
    by simp
  from a remove_item_idempotent [of 2 shop_cart]
  have 2: "cart_remove_item 2 (snd (cart_remove_item 2 shop_cart)) =
      (Inr False, snd (cart_remove_item 2 shop_cart))"
    by blast
  from e remove_item_idempotent [of 2 shop]
  have 3: "cart_remove_item 2 shop = (Inr False, shop)"
    by blast
  from a b c e 1 2 3 show ?thesis by blast
qed

section \<open>The order in which checkout locks products\<close>

lemma lock_and_check_all:
  "\<forall>it \<in> set items. ci_quantity it \<le> stock_for_update d (ci_product_id it) \<Longrightarrow>
     lock_and_check d items = (map ci_product_id items, Inr ())"
  by (induction items) (simp_all add: not_less [symmetric])

lemma lock_and_check_first:
  "\<forall>x \<in> set pre. ci_quantity x \<le> stock_for_update d (ci_product_id x) \<Longrightarrow>
   stock_for_update d (ci_product_id it) < ci_quantity it \<Longrightarrow>
     lock_and_check d (pre @ it # post) =
       (map ci_product_id pre @ [ci_product_id it], Inl OutOfStock)"
  by (induction pre) (simp_all add: not_less [symmetric])

lemma lock_and_check_visits:
  "\<exists>n. fst (lock_and_check d items) = take n (map ci_product_id items)"
proof (induction items)
  case Nil
  then show ?case by simp
next
  case (Cons it its)
  then obtain n where n: "fst (lock_and_check d its) = take n (map ci_product_id its)" ..
  show ?case
  proof (cases "stock_for_update d (ci_product_id it) < ci_quantity it")
    case True
    then have "fst (lock_and_check d (it # its)) = take 1 (map ci_product_id (it # its))"
      by simp
    then show ?thesis ..
  next
    case False
    with n have "fst (lock_and_check d (it # its)) = take (Suc n) (map ci_product_id (it # its))"
      by (simp add: split_beta)
    then show ?thesis ..
  qed
qed

lemma lock_and_check_passes:
  "snd (lock_and_check d items) = Inr u \<Longrightarrow>
     fst (lock_and_check d items) = map ci_product_id items"
  by (induction items) (auto simp: Let_def split_beta split: if_splits)

text \<open>
  C5, as stated, fails: the lines of the cart are read without \<open>ORDER BY\<close> and
  the loop locks in the order of that result. In the sample cart the line of product 2
  was added before the line of product 1 (the two \<open>cart.add_item\<close> calls that build the
  cart from the empty shop are replayed here), and the checkout locks product 2 first.
\<close>

theorem checkout_lock_order_counterexample:
  "wf_db shop \<and> exec_calls [AddItem 2 (Some 1), AddItem 1 (Some 2)] shop = shop_cart \<and>
   checkout_lock_order shop_cart = [2, 1] \<and>
   \<not> sorted (checkout_lock_order shop_cart)"
  by code_simp

text \<open>
  C5, amended. A checkout takes its product row locks in the order in which the cart's
  lines are returned by the query over \<open>cart_items\<close> (their stored order), one
  \<open>FOR UPDATE\<close> read per line. When every line's quantity is within the stock read, it
  locks the product of every line, in that order, and validation passes. Otherwise it
  locks the products of the lines up to and including the first line whose quantity
  exceeds the stock read, in that order, and stops there with \<open>Out of stock\<close>. The
  sequence is ascending whenever the lines are stored in ascending product-id order and,
  when every line is within stock, only then.
\<close>

theorem checkout_lock_order_rows:
  assumes "select_active_cart d = Some cartId"
  shows "((\<forall>it \<in> set (select_cart_items d cartId).
              ci_quantity it \<le> stock_for_update d (ci_product_id it)) \<longrightarrow>
       checkout_lock_order d = map ci_product_id (select_cart_items d cartId) \<and>
       snd (lock_and_check d (select_cart_items d cartId)) = Inr () \<and>
       (sorted (checkout_lock_order d) \<longleftrightarrow>
          sorted (map ci_product_id (select_cart_items d cartId)))) \<and>
    (\<forall>pre it post.
       select_cart_items d cartId = pre @ it # post \<and>
       (\<forall>x \<in> set pre. ci_quantity x \<le> stock_for_update d (ci_product_id x)) \<and>
       stock_for_update d (ci_product_id it) < ci_quantity it \<longrightarrow>
       checkout_lock_order d = map ci_product_id pre @ [ci_product_id it] \<and>
       snd (lock_and_check d (select_cart_items d cartId)) = Inl OutOfStock) \<and>
    (\<forall>u. snd (lock_and_check d (select_cart_items d cartId)) = Inr u \<longrightarrow>
       checkout_lock_order d = map ci_product_id (select_cart_items d cartId)) \<and>
    (sorted (map ci_product_id (select_cart_items d cartId)) \<longrightarrow>
       sorted (checkout_lock_order d))"
proof -
  have eq: "checkout_lock_order d = fst (lock_and_check d (select_cart_items d cartId))"
    using assms by (simp add: checkout_lock_order_def)
  obtain n where n: "checkout_lock_order d = take n (map ci_product_id (select_cart_items d cartId))"
    using lock_and_check_visits [of d "select_cart_items d cartId"] eq by auto
  have all: "checkout_lock_order d = map ci_product_id (select_cart_items d cartId) \<and>
       snd (lock_and_check d (select_cart_items d cartId)) = Inr () \<and>
       (sorted (checkout_lock_order d) \<longleftrightarrow>
          sorted (map ci_product_id (select_cart_items d cartId)))"
    if "\<forall>it \<in> set (select_cart_items d cartId).
              ci_quantity it \<le> stock_for_update d (ci_product_id it)"
    using lock_and_check_all [OF that] eq by simp
  have first: "checkout_lock_order d = map ci_product_id pre @ [ci_product_id it] \<and>
       snd (lock_and_check d (select_cart_items d cartId)) = Inl OutOfStock"
    if "select_cart_items d cartId = pre @ it # post \<and>
       (\<forall>x \<in> set pre. ci_quantity x \<le> stock_for_update d (ci_product_id x)) \<and>
       stock_for_update d (ci_product_id it) < ci_quantity it" for pre it post
  proof -
    from that have sel: "select_cart_items d cartId = pre @ it # post"
      and pre: "\<forall>x \<in> set pre. ci_quantity x \<le> stock_for_update d (ci_product_id x)"
      and it: "stock_for_update d (ci_product_id it) < ci_quantity it"
      by simp_all
    from lock_and_check_first [OF pre it, of post] sel eq show ?thesis by simp
  qed
  have passes: "checkout_lock_order d = map ci_product_id (select_cart_items d cartId)"
    if "snd (lock_and_check d (select_cart_items d cartId)) = Inr u" for u
    using that unfolding eq by (rule lock_and_check_passes)
  have asc: "sorted (checkout_lock_order d)"
    if "sorted (map ci_product_id (select_cart_items d cartId))"
    using that unfolding n by (rule sorted_wrt_take)
  from all first passes asc show ?thesis by blast
qed

text \<open>In the sample cart both lines are within stock and both products are locked, product
  2 first; with the stock of product 2 at 0 the loop stops at the first line.\<close>

theorem checkout_lock_order_rows_witness:
  "select_active_cart shop_cart = Some 1 \<and>
   select_cart_items shop_cart 1 = cart_items shop_cart \<and>
   list_all (\<lambda>it. ci_quantity it \<le> stock_for_update shop_cart (ci_product_id it))
     (select_cart_items shop_cart 1) \<and>
   checkout_lock_order shop_cart = [2, 1] \<and>
   snd (lock_and_check shop_cart (select_cart_items shop_cart 1)) = Inr () \<and>
   select_active_cart shop_short = Some 1 \<and>
   select_cart_items shop_short 1 =
     [] @ \<lparr>ci_cart_id = 1, ci_product_id = 2, ci_quantity = 1, ci_price_cents = 500\<rparr> #
       [\<lparr>ci_cart_id = 1, ci_product_id = 1, ci_quantity = 2, ci_price_cents = 100\<rparr>] \<and>
   stock_for_update shop_short 2 < 1 \<and>
   checkout_lock_order shop_short = [2] \<and>
   snd (lock_and_check shop_short (select_cart_items shop_short 1)) = Inl OutOfStock"
proof -
  have a: "select_active_cart shop_cart = Some 1"
    by (simp add: select_active_cart_def shop_cart_def shop_def the_customer_def)
  have b: "select_cart_items shop_cart 1 = cart_items shop_cart"
    by (simp add: select_cart_items_def shop_cart_def shop_def)
  have c: "\<forall>it \<in> set (select_cart_items shop_cart 1).
      ci_quantity it \<le> stock_for_update shop_cart (ci_product_id it)"
    by (simp add: select_cart_items_def shop_cart_def shop_def stock_for_update_def
        select_product_def)
  have ids: "map ci_product_id (select_cart_items shop_cart 1) = [2, 1]"
    by (simp add: select_cart_items_def shop_cart_def shop_def)
  have a': "select_active_cart shop_short = Some 1"
    by (simp add: select_active_cart_def shop_short_def shop_cart_def shop_def the_customer_def)
  have b': "select_cart_items shop_short 1 =
     [] @ \<lparr>ci_cart_id = 1, ci_product_id = 2, ci_quantity = 1, ci_price_cents = 500\<rparr> #
       [\<lparr>ci_cart_id = 1, ci_product_id = 1, ci_quantity = 2, ci_price_cents = 100\<rparr>]"
    by (simp add: select_cart_items_def shop_short_def shop_cart_def shop_def)
  have c': "stock_for_update shop_short 2 < 1"
    by (simp add: stock_for_update_def select_product_def shop_short_def shop_cart_def shop_def)
  from checkout_lock_order_rows [OF a] c ids
  have 1: "checkout_lock_order shop_cart = [2, 1] \<and>
      snd (lock_and_check shop_cart (select_cart_items shop_cart 1)) = Inr ()"
    by simp
  from checkout_lock_order_rows [OF a'] b' c'
  have 2: "checkout_lock_order shop_short = [2] \<and>
      snd (lock_and_check shop_short (select_cart_items shop_short 1)) = Inl OutOfStock"
    by force
  from c have c2: "list_all (\<lambda>it. ci_quantity it \<le> stock_for_update shop_cart (ci_product_id it))
     (select_cart_items shop_cart 1)"
    by (simp only: list_all_iff)
  from a b c2 1 a' b' c' 2 show ?thesis by blast
qed

section \<open>Ensuring the active cart\<close>

text \<open>The partial unique index \<open>ux_carts_active_per_customer\<close>, on its own.\<close>

definition one_active_cart :: "db \<Rightarrow> bool" where
  "one_active_cart d =
     distinct (map c_customer_id (filter (\<lambda>c. c_status c = Active) (carts d)))"

text \<open>What another session does between the two statements of \<open>cart.ensure\<close> when it
  runs the same tool to its end: it inserts the cart.\<close>

definition other_session_ensures :: "db \<Rightarrow> db" where
  "other_session_ensures d = snd (insert_cart d)"

lemma select_active_cart_None:
  "select_active_cart d = None \<longleftrightarrow>
     \<not> list_ex (\<lambda>c. c_customer_id c = the_customer \<and> c_status c = Active) (carts d)"
  by (auto simp: select_active_cart_def find_None_iff list_ex_iff)

lemma insert_cart_fresh:
  assumes "carts_ok d" and "select_active_cart d = None"
  shows "insert_cart d =
     (Inr (carts_id_seq d),
      d\<lparr>carts := carts d @
           [\<lparr>c_id = carts_id_seq d, c_customer_id = the_customer, c_status = Active\<rparr>],
         carts_id_seq := carts_id_seq d + 1\<rparr>)"
proof -
  from assms(1) have "carts_id_seq d \<notin> set (map c_id (carts d))"
    by (auto simp: carts_ok_def)
  moreover from assms(1) have "int4 (carts_id_seq d)" "the_customer \<in> set (customers d)"
    by (simp_all add: carts_ok_def)
  moreover note assms(2) [unfolded select_active_cart_None]
  ultimately show ?thesis
    by (simp add: insert_cart_def Let_def)
qed

lemma insert_cart_conflict:
  assumes "select_active_cart d \<noteq> None"
  shows "(\<exists>e. fst (insert_cart d) = Inl e) \<and> same_tables d (snd (insert_cart d)) \<and>
    (int4 (carts_id_seq d) \<longrightarrow> fst (insert_cart d) = Inl UniqueViolation)"
  using assms [unfolded select_active_cart_None]
  by (simp add: insert_cart_def Let_def same_tables_def)

lemma insert_cart_one_active:
  assumes "one_active_cart d"
  shows "one_active_cart (snd (insert_cart d))"
proof (cases "fst (insert_cart d)")
  case (Inl e)
  then have "carts (snd (insert_cart d)) = carts d"
    by (auto simp: insert_cart_def Let_def split: if_splits)
  with assms show ?thesis by (simp add: one_active_cart_def)
next
  case (Inr newid)
  then have none: "\<not> list_ex (\<lambda>c. c_customer_id c = the_customer \<and> c_status c = Active) (carts d)"
    and c: "carts (snd (insert_cart d)) = carts d @
      [\<lparr>c_id = carts_id_seq d, c_customer_id = the_customer, c_status = Active\<rparr>]"
    by (auto simp: insert_cart_def Let_def split: if_splits)
  from none have "the_customer \<notin> set (map c_customer_id (filter (\<lambda>c. c_status c = Active) (carts d)))"
    by (auto simp: list_ex_iff)
  with assms show ?thesis
    by (simp add: one_active_cart_def c)
qed

text \<open>
  C6, as stated, fails in its conflict clause: \<open>cart.ensure\<close> has no handler around
  its \<open>INSERT\<close>. When an active cart appears between its \<open>SELECT\<close> and its
  \<open>INSERT\<close> (here: another session ran the same tool), the unique index rejects the
  \<open>INSERT\<close> and the call ends with that error; it does not return the existing cart 1.
\<close>

theorem cart_ensure_counterexample:
  "wf_db shop \<and> select_active_cart shop = None \<and>
   select_active_cart (other_session_ensures shop) = Some 1 \<and>
   fst (cart_ensure other_session_ensures shop) = Inl UniqueViolation"
  by code_simp

text \<open>
  C6, amended. \<open>cart.ensure\<close> returns the id of the existing active cart when there is
  one, and changes nothing. Otherwise, running alone on a store that satisfies the
  declarations of the carts table, it creates exactly one new active cart and returns its
  id. If the creation hits the uniqueness conflict (an active cart appeared in between),
  the call fails (with the unique violation, unless the id sequence is exhausted) and
  no table is changed by it. In every case the store it leaves has at most one active
  cart per customer when the stores it has read had.
\<close>

theorem cart_ensure_once:
  "(\<forall>cartId. select_active_cart d = Some cartId \<longrightarrow> cart_ensure others d = (Inr cartId, d)) \<and>
   (carts_ok d \<and> select_active_cart d = None \<longrightarrow>
      cart_ensure (\<lambda>s. s) d =
        (Inr (carts_id_seq d),
         d\<lparr>carts := carts d @
              [\<lparr>c_id = carts_id_seq d, c_customer_id = the_customer, c_status = Active\<rparr>],
            carts_id_seq := carts_id_seq d + 1\<rparr>)) \<and>
   (select_active_cart d = None \<and> select_active_cart (others d) \<noteq> None \<longrightarrow>
      (\<exists>e. fst (cart_ensure others d) = Inl e) \<and>
      same_tables (others d) (snd (cart_ensure others d)) \<and>
      (int4 (carts_id_seq (others d)) \<longrightarrow> fst (cart_ensure others d) = Inl UniqueViolation)) \<and>
   (one_active_cart d \<and> one_active_cart (others d) \<longrightarrow>
      one_active_cart (snd (cart_ensure others d)))"
proof (intro conjI allI impI)
  fix cartId assume "select_active_cart d = Some cartId"
  then show "cart_ensure others d = (Inr cartId, d)"
    by (simp add: cart_ensure_def)
next
  assume "carts_ok d \<and> select_active_cart d = None"
  then show "cart_ensure (\<lambda>s. s) d =
        (Inr (carts_id_seq d),
         d\<lparr>carts := carts d @
              [\<lparr>c_id = carts_id_seq d, c_customer_id = the_customer, c_status = Active\<rparr>],
            carts_id_seq := carts_id_seq d + 1\<rparr>)"
    by (simp add: cart_ensure_def insert_cart_fresh)
next
  assume a: "select_active_cart d = None \<and> select_active_cart (others d) \<noteq> None"
  then have eq: "cart_ensure others d = insert_cart (others d)"
    by (simp add: cart_ensure_def)
  from a insert_cart_conflict [of "others d"]
  show "\<exists>e. fst (cart_ensure others d) = Inl e"
    and "same_tables (others d) (snd (cart_ensure others d))"
    and "int4 (carts_id_seq (others d)) \<Longrightarrow> fst (cart_ensure others d) = Inl UniqueViolation"
    unfolding eq by blast+
next
  assume a: "one_active_cart d \<and> one_active_cart (others d)"
  show "one_active_cart (snd (cart_ensure others d))"
  proof (cases "select_active_cart d")
    case None
    with a show ?thesis by (simp add: cart_ensure_def insert_cart_one_active)
  next
    case (Some cartId)
    with a show ?thesis by (simp add: cart_ensure_def)
  qed
qed

theorem cart_ensure_once_witness:
  "select_active_cart shop_cart = Some 1 \<and>
   cart_ensure other_session_ensures shop_cart = (Inr 1, shop_cart) \<and>
   carts_ok shop \<and> select_active_cart shop = None \<and>
   fst (cart_ensure (\<lambda>s. s) shop) = Inr 1 \<and>
   select_active_cart (other_session_ensures shop) \<noteq> None \<and>
   same_tables (other_session_ensures shop) (snd (cart_ensure other_session_ensures shop)) \<and>
   one_active_cart shop \<and> one_active_cart (other_session_ensures shop) \<and>
   one_active_cart (snd (cart_ensure other_session_ensures shop))"
proof -
  have a: "select_active_cart shop_cart = Some 1"
    by (simp add: select_active_cart_def shop_cart_def shop_def the_customer_def)
  have b: "carts_ok shop"
    using wf_shop by (simp add: wf_db_def)
  have c: "select_active_cart shop = None"
    by (simp add: select_active_cart_def shop_def)
  have e: "select_active_cart (other_session_ensures shop) \<noteq> None"
    by code_simp
  have f: "one_active_cart shop"
    by (simp add: one_active_cart_def shop_def)
  have g: "one_active_cart (other_session_ensures shop)"
    unfolding other_session_ensures_def using f by (rule insert_cart_one_active)
  have s: "carts_id_seq shop = 1"
    by (simp add: shop_def)
  from a cart_ensure_once [of shop_cart other_session_ensures]
  have 1: "cart_ensure other_session_ensures shop_cart = (Inr 1, shop_cart)"
    by blast
  from b c cart_ensure_once [of shop "\<lambda>s. s"]
  have 2: "fst (cart_ensure (\<lambda>s. s) shop) = Inr 1"
    by (simp add: s)
  from c e cart_ensure_once [of shop other_session_ensures]
  have 3: "same_tables (other_session_ensures shop) (snd (cart_ensure other_session_ensures shop))"
    by blast
  from f g cart_ensure_once [of shop other_session_ensures]
  have 4: "one_active_cart (snd (cart_ensure other_session_ensures shop))"
    by blast
  from a b c e f g 1 2 3 4 show ?thesis by blast
qed

section \<open>Viewing the cart\<close>

text \<open>A depot with one expensive product in large supply, and its cart after
  \<open>cart.add_item\<close> of the whole supply.\<close>

definition depot :: db where
  "depot = \<lparr>products = [\<lparr>p_id = 1, p_name = ''Kayak'', p_price_cents = 50000, p_stock = 50000\<rparr>],
            customers = [1], carts = [], cart_items = [], orders = [], order_items = [],
            carts_id_seq = 1, orders_id_seq = 1\<rparr>"

definition depot_cart :: db where
  "depot_cart = depot\<lparr>carts := [\<lparr>c_id = 1, c_customer_id = 1, c_status = Active\<rparr>],
       cart_items := [\<lparr>ci_cart_id = 1, ci_product_id = 1, ci_quantity = 50000,
                        ci_price_cents = 50000\<rparr>],
       carts_id_seq := 2\<rparr>"

lemma js_number_exact: "\<bar>x\<bar> \<le> 2 ^ 53 \<Longrightarrow> js_number x = Some x"
  by (simp add: js_number_def)

text \<open>Beyond \<open>2^53\<close> a sum is rounded: adding 1 to \<open>2^53\<close> leaves \<open>2^53\<close>.\<close>

lemma js_add_rounds: "js_add (Some (2 ^ 53)) 1 = Some (2 ^ 53)"
  by code_simp

lemma foldl_line_totals:
  "0 \<le> a \<Longrightarrow> \<forall>row \<in> set rows. 0 \<le> r_line_total row \<Longrightarrow>
   a + sum_list (map r_line_total rows) \<le> 2 ^ 53 \<Longrightarrow>
     foldl (\<lambda>s r. js_add s (r_line_total r)) (Some a) rows =
       Some (a + sum_list (map r_line_total rows))"
proof (induction rows arbitrary: a)
  case Nil
  then show ?case by simp
next
  case (Cons x xs)
  from Cons.prems have x: "0 \<le> r_line_total x"
    and xs: "\<forall>y \<in> set xs. 0 \<le> r_line_total y" by simp_all
  from xs have "0 \<le> sum_list (map r_line_total xs)"
    by (intro sum_list_nonneg) auto
  with Cons.prems x have "\<bar>a + r_line_total x\<bar> \<le> 2 ^ 53" by simp
  then have "js_add (Some a) (r_line_total x) = Some (a + r_line_total x)"
    by (simp add: js_add_def js_number_exact)
  moreover have "foldl (\<lambda>s r. js_add s (r_line_total r)) (Some (a + r_line_total x)) xs =
      Some (a + r_line_total x + sum_list (map r_line_total xs))"
    using Cons.prems x xs by (intro Cons.IH) simp_all
  ultimately show ?case by (simp add: add.assoc)
qed

lemma sum_list_sort_key:
  fixes f :: "'a \<Rightarrow> int"
  shows "sum_list (map f (sort_key k xs)) = sum_list (map f xs)"
proof -
  have "mset (map f (sort_key k xs)) = mset (map f xs)"
    by (simp only: mset_map mset_sort)
  then have "sum_mset (mset (map f (sort_key k xs))) = sum_mset (mset (map f xs))"
    by (rule arg_cong)
  then show ?thesis
    by (simp only: sum_mset_sum_list)
qed

lemma joined_lines_fst:
  "cp \<in> set (joined_lines d cartId) \<Longrightarrow> fst cp \<in> set (select_cart_items d cartId)"
  by (auto simp: joined_lines_def)

lemma filter_key_single:
  assumes "distinct (map f xs)" and "k \<in> set (map f xs)"
  shows "\<exists>x. filter (\<lambda>y. f y = k) xs = [x]"
  using assms
proof (induction xs)
  case Nil
  then show ?case by simp
next
  case (Cons a xs)
  show ?case
  proof (cases "f a = k")
    case True
    from Cons.prems(1) have "f a \<notin> f ` set xs" by simp
    with True have "\<forall>x \<in> set xs. f x \<noteq> k" by blast
    then have "filter (\<lambda>y. f y = k) xs = []"
      by (simp add: filter_empty_conv)
    with True show ?thesis by simp
  next
    case False
    with Cons show ?thesis by auto
  qed
qed

lemma join_single:
  "\<forall>ci \<in> set items. \<exists>p. filter (\<lambda>p. p_id p = ci_product_id ci) ps = [p] \<Longrightarrow>
     map fst (concat (map (\<lambda>ci. map (\<lambda>p. (ci, p)) (filter (\<lambda>p. p_id p = ci_product_id ci) ps)) items))
       = items"
  by (induction items) auto

lemma joined_lines_all:
  assumes "products_ok d" and "cart_items_ok d"
  shows "map fst (joined_lines d cartId) = select_cart_items d cartId"
proof -
  have "\<forall>ci \<in> set (select_cart_items d cartId).
      \<exists>p. filter (\<lambda>p. p_id p = ci_product_id ci) (products d) = [p]"
  proof
    fix ci assume "ci \<in> set (select_cart_items d cartId)"
    then have "ci \<in> set (cart_items d)" by (simp add: select_cart_items_def)
    with assms(2) have "ci_product_id ci \<in> set (map p_id (products d))"
      by (simp add: cart_items_ok_def)
    moreover from assms(1) have "distinct (map p_id (products d))"
      by (simp add: products_ok_def)
    ultimately show "\<exists>p. filter (\<lambda>p. p_id p = ci_product_id ci) (products d) = [p]"
      by (rule filter_key_single [rotated])
  qed
  then show ?thesis
    unfolding joined_lines_def by (rule join_single)
qed

lemma view_rows_ok:
  assumes "\<forall>ci \<in> set (select_cart_items d cartId). int4 (ci_quantity ci * ci_price_cents ci)"
  shows "select_view_rows d cartId =
    Inr (sort_key r_name (map view_row_of (joined_lines d cartId)))"
proof -
  have "\<not> list_ex (\<lambda>cp. \<not> int4 (ci_quantity (fst cp) * ci_price_cents (fst cp)))
      (joined_lines d cartId)"
    using assms joined_lines_fst [of _ d cartId] by (auto simp: list_ex_iff)
  then show ?thesis by (simp add: select_view_rows_def)
qed

text \<open>
  C9, as stated, fails: \<open>cart.view\<close> can end with an error. The line total is computed
  by the query as the product of two \<open>INTEGER\<close> columns; for the depot's cart (reached
  from the depot by one \<open>cart.add_item\<close> call, replayed here) it is 2 500 000 000, beyond
  the type, and the query, and with it the call, is rejected.
\<close>

theorem cart_view_counterexample:
  "wf_db depot \<and> exec_calls [AddItem 1 (Some 50000)] depot = depot_cart \<and>
   wf_db depot_cart \<and> fst (cart_view depot_cart) = Inl NumericValueOutOfRange"
  by code_simp

text \<open>
  C9, amended. \<open>cart.view\<close> never changes the store. With no active cart it returns
  the empty result (no cart, no items, total 0), not an error. With an active cart whose
  line totals (quantity times unit price) all fit the \<open>INTEGER\<close> type it does not fail:
  it returns the cart's id and rows whose \<open>line_total\<close> is quantity times the line's
  snapshot unit price, and, when no line total is negative and their sum is at most
  \<open>2^53\<close>, a total that is the sum of the line totals. On a store that satisfies the
  declarations of the products and cart lines tables the rows are, up to their order,
  exactly the cart's lines, and the total is the sum of quantity times unit price over
  the cart's lines when that sum is at most \<open>2^53\<close>.
\<close>

theorem cart_view_total:
  "snd (cart_view d) = d \<and>
   (select_active_cart d = None \<longrightarrow>
      fst (cart_view d) = Inr \<lparr>v_cartId = None, v_items = [], v_total_cents = Some 0\<rparr>) \<and>
   (\<forall>cartId. select_active_cart d = Some cartId \<and>
        (\<forall>ci \<in> set (select_cart_items d cartId). int4 (ci_quantity ci * ci_price_cents ci)) \<longrightarrow>
      (\<exists>r. fst (cart_view d) = Inr r \<and> v_cartId r = Some cartId \<and>
         (\<forall>row \<in> set (v_items r). r_line_total row = r_quantity row * r_price_cents row) \<and>
         ((\<forall>row \<in> set (v_items r). 0 \<le> r_line_total row) \<and>
          sum_list (map r_line_total (v_items r)) \<le> 2 ^ 53 \<longrightarrow>
            v_total_cents r = Some (sum_list (map r_line_total (v_items r)))) \<and>
         (products_ok d \<and> cart_items_ok d \<longrightarrow>
            mset (map (\<lambda>row. (r_product_id row, r_quantity row, r_price_cents row)) (v_items r)) =
            mset (map (\<lambda>ci. (ci_product_id ci, ci_quantity ci, ci_price_cents ci))
              (select_cart_items d cartId)) \<and>
            (sum_list (map (\<lambda>ci. ci_quantity ci * ci_price_cents ci)
                 (select_cart_items d cartId)) \<le> 2 ^ 53 \<longrightarrow>
               v_total_cents r =
                 Some (sum_list (map (\<lambda>ci. ci_quantity ci * ci_price_cents ci)
                   (select_cart_items d cartId)))))))"
proof (intro conjI allI impI)
  show "snd (cart_view d) = d"
    by (simp add: cart_view_def split: option.split sum.split)
next
  assume "select_active_cart d = None"
  then show "fst (cart_view d) = Inr \<lparr>v_cartId = None, v_items = [], v_total_cents = Some 0\<rparr>"
    by (simp add: cart_view_def)
next
  fix cartId
  assume a: "select_active_cart d = Some cartId \<and>
        (\<forall>ci \<in> set (select_cart_items d cartId). int4 (ci_quantity ci * ci_price_cents ci))"
  let ?rows = "sort_key r_name (map view_row_of (joined_lines d cartId))"
  let ?lt = "\<lambda>ci. ci_quantity ci * ci_price_cents ci"
  define r where "r = \<lparr>v_cartId = Some cartId, v_items = ?rows,
             v_total_cents = foldl (\<lambda>s r. js_add s (r_line_total r)) (Some 0) ?rows\<rparr>"
  have items: "v_items r = ?rows"
    and total: "v_total_cents r = foldl (\<lambda>s r. js_add s (r_line_total r)) (Some 0) ?rows"
    and 0: "v_cartId r = Some cartId"
    by (simp_all add: r_def)
  from a have rows: "select_view_rows d cartId = Inr ?rows"
    by (simp add: view_rows_ok)
  with a have 1: "fst (cart_view d) = Inr r"
    by (simp add: cart_view_def r_def)
  have 2: "\<forall>row \<in> set (v_items r). r_line_total row = r_quantity row * r_price_cents row"
    unfolding items by (auto simp: view_row_of_def)
  have 3: "(\<forall>row \<in> set (v_items r). 0 \<le> r_line_total row) \<and>
          sum_list (map r_line_total (v_items r)) \<le> 2 ^ 53 \<longrightarrow>
            v_total_cents r = Some (sum_list (map r_line_total (v_items r)))"
    unfolding items total using foldl_line_totals [of 0 ?rows] by simp
  have 4: "mset (map (\<lambda>row. (r_product_id row, r_quantity row, r_price_cents row)) (v_items r)) =
            mset (map (\<lambda>ci. (ci_product_id ci, ci_quantity ci, ci_price_cents ci))
              (select_cart_items d cartId))" if ok: "products_ok d \<and> cart_items_ok d"
  proof -
    have "mset (map (\<lambda>row. (r_product_id row, r_quantity row, r_price_cents row)) ?rows) =
        mset (map (\<lambda>row. (r_product_id row, r_quantity row, r_price_cents row))
          (map view_row_of (joined_lines d cartId)))"
      by (simp only: mset_map mset_sort)
    also have "map (\<lambda>row. (r_product_id row, r_quantity row, r_price_cents row))
          (map view_row_of (joined_lines d cartId)) =
        map (\<lambda>ci. (ci_product_id ci, ci_quantity ci, ci_price_cents ci))
          (map fst (joined_lines d cartId))"
      by (simp add: view_row_of_def)
    also have "map fst (joined_lines d cartId) = select_cart_items d cartId"
      using ok by (simp add: joined_lines_all)
    finally show ?thesis unfolding items by simp
  qed
  have 5: "v_total_cents r = Some (sum_list (map ?lt (select_cart_items d cartId)))"
    if ok: "products_ok d \<and> cart_items_ok d"
      and le: "sum_list (map ?lt (select_cart_items d cartId)) \<le> 2 ^ 53"
  proof -
    have "sum_list (map r_line_total ?rows) =
        sum_list (map r_line_total (map view_row_of (joined_lines d cartId)))"
      by (rule sum_list_sort_key)
    also have "map r_line_total (map view_row_of (joined_lines d cartId)) =
        map ?lt (map fst (joined_lines d cartId))"
      by (simp add: view_row_of_def)
    also have "map fst (joined_lines d cartId) = select_cart_items d cartId"
      using ok by (simp add: joined_lines_all)
    finally have s: "sum_list (map r_line_total (v_items r)) =
        sum_list (map ?lt (select_cart_items d cartId))"
      unfolding items .
    have "0 \<le> r_line_total row" if "row \<in> set ?rows" for row
    proof -
      from that obtain cp where cp: "cp \<in> set (joined_lines d cartId)" "row = view_row_of cp"
        by auto
      from cp(1) have "fst cp \<in> set (cart_items d)"
        using joined_lines_fst [of cp d cartId] by (simp add: select_cart_items_def)
      with ok have "0 < ci_quantity (fst cp) \<and> 0 \<le> ci_price_cents (fst cp)"
        by (simp add: cart_items_ok_def)
      with cp(2) show ?thesis by (simp add: view_row_of_def)
    qed
    then have "\<forall>row \<in> set (v_items r). 0 \<le> r_line_total row"
      unfolding items by blast
    with s le 3 show ?thesis by simp
  qed
  have 6: "products_ok d \<and> cart_items_ok d \<longrightarrow>
            mset (map (\<lambda>row. (r_product_id row, r_quantity row, r_price_cents row)) (v_items r)) =
            mset (map (\<lambda>ci. (ci_product_id ci, ci_quantity ci, ci_price_cents ci))
              (select_cart_items d cartId)) \<and>
            (sum_list (map (\<lambda>ci. ci_quantity ci * ci_price_cents ci)
                 (select_cart_items d cartId)) \<le> 2 ^ 53 \<longrightarrow>
               v_total_cents r =
                 Some (sum_list (map (\<lambda>ci. ci_quantity ci * ci_price_cents ci)
                   (select_cart_items d cartId))))"
    using 4 5 by (intro impI conjI)
  from 1 0 2 3 6 show "\<exists>r. fst (cart_view d) = Inr r \<and> v_cartId r = Some cartId \<and>
         (\<forall>row \<in> set (v_items r). r_line_total row = r_quantity row * r_price_cents row) \<and>
         ((\<forall>row \<in> set (v_items r). 0 \<le> r_line_total row) \<and>
          sum_list (map r_line_total (v_items r)) \<le> 2 ^ 53 \<longrightarrow>
            v_total_cents r = Some (sum_list (map r_line_total (v_items r)))) \<and>
         (products_ok d \<and> cart_items_ok d \<longrightarrow>
            mset (map (\<lambda>row. (r_product_id row, r_quantity row, r_price_cents row)) (v_items r)) =
            mset (map (\<lambda>ci. (ci_product_id ci, ci_quantity ci, ci_price_cents ci))
              (select_cart_items d cartId)) \<and>
            (sum_list (map (\<lambda>ci. ci_quantity ci * ci_price_cents ci)
                 (select_cart_items d cartId)) \<le> 2 ^ 53 \<longrightarrow>
               v_total_cents r =
                 Some (sum_list (map (\<lambda>ci. ci_quantity ci * ci_price_cents ci)
                   (select_cart_items d cartId)))))"
    by (intro exI [of _ r] conjI)
qed

theorem cart_view_total_witness:
  "select_active_cart shop = None \<and>
   cart_view shop = (Inr \<lparr>v_cartId = None, v_items = [], v_total_cents = Some 0\<rparr>, shop) \<and>
   select_active_cart shop_cart = Some 1 \<and>
   products_ok shop_cart \<and> cart_items_ok shop_cart \<and>
   sum_list (map (\<lambda>ci. ci_quantity ci * ci_price_cents ci) (select_cart_items shop_cart 1)) = 700 \<and>
   cart_view shop_cart =
     (Inr \<lparr>v_cartId = Some 1,
           v_items = [\<lparr>r_product_id = 2, r_name = ''Cap'', r_quantity = 1, r_price_cents = 500,
                        r_line_total = 500\<rparr>,
                      \<lparr>r_product_id = 1, r_name = ''Tee'', r_quantity = 2, r_price_cents = 100,
                        r_line_total = 200\<rparr>],
           v_total_cents = Some 700\<rparr>, shop_cart) \<and>
   (\<exists>r. fst (cart_view shop_cart) = Inr r \<and> v_total_cents r = Some 700)"
proof -
  have a: "select_active_cart shop = None"
    by (simp add: select_active_cart_def shop_def)
  have b: "select_active_cart shop_cart = Some 1"
    by (simp add: select_active_cart_def shop_cart_def shop_def the_customer_def)
  have c: "\<forall>ci \<in> set (select_cart_items shop_cart 1). int4 (ci_quantity ci * ci_price_cents ci)"
    by (simp add: select_cart_items_def shop_cart_def shop_def int4_def)
  have ok: "products_ok shop_cart" "cart_items_ok shop_cart"
    using wf_shop_cart by (simp_all add: wf_db_def)
  have s: "sum_list (map (\<lambda>ci. ci_quantity ci * ci_price_cents ci)
      (select_cart_items shop_cart 1)) = 700"
    by (simp add: select_cart_items_def shop_cart_def shop_def)
  have v: "cart_view shop_cart =
     (Inr \<lparr>v_cartId = Some 1,
           v_items = [\<lparr>r_product_id = 2, r_name = ''Cap'', r_quantity = 1, r_price_cents = 500,
                        r_line_total = 500\<rparr>,
                      \<lparr>r_product_id = 1, r_name = ''Tee'', r_quantity = 2, r_price_cents = 100,
                        r_line_total = 200\<rparr>],
           v_total_cents = Some 700\<rparr>, shop_cart)"
    by code_simp
  from a cart_view_total [of shop]
  have 1: "cart_view shop = (Inr \<lparr>v_cartId = None, v_items = [], v_total_cents = Some 0\<rparr>, shop)"
    by (simp add: prod_eq_iff)
  from cart_view_total [of shop_cart] b c
  obtain r where r: "fst (cart_view shop_cart) = Inr r"
    and t: "products_ok shop_cart \<and> cart_items_ok shop_cart \<longrightarrow>
      (sum_list (map (\<lambda>ci. ci_quantity ci * ci_price_cents ci)
           (select_cart_items shop_cart 1)) \<le> 2 ^ 53 \<longrightarrow>
         v_total_cents r =
           Some (sum_list (map (\<lambda>ci. ci_quantity ci * ci_price_cents ci)
             (select_cart_items shop_cart 1))))"
    by blast
  from t ok s have "v_total_cents r = Some 700" by simp
  with r have 2: "\<exists>r. fst (cart_view shop_cart) = Inr r \<and> v_total_cents r = Some 700"
    by blast
  from a b ok s v 1 2 show ?thesis by blast
qed

section \<open>Adding to the cart\<close>

text \<open>The quantity already in the active cart for a product: 0 without a cart or a line.\<close>

definition existing_quantity :: "db \<Rightarrow> int \<Rightarrow> int" where
  "existing_quantity d productId =
     (case select_active_cart d of
        None \<Rightarrow> 0
      | Some cartId \<Rightarrow>
          (case select_cart_line d cartId productId of
             Some l \<Rightarrow> ci_quantity l
           | None \<Rightarrow> 0))"

definition cart_key :: "cart_item \<Rightarrow> int \<times> int" where
  "cart_key ci = (ci_cart_id ci, ci_product_id ci)"

lemma select_product_Some:
  "select_product d productId = Some pr \<Longrightarrow> pr \<in> set (products d) \<and> p_id pr = productId"
  by (auto simp: select_product_def find_Some_iff)

lemma select_active_cart_Some:
  "select_active_cart d = Some cartId \<Longrightarrow> cartId \<in> set (map c_id (carts d))"
  by (auto simp: select_active_cart_def find_Some_iff)

lemma select_cart_line_Some:
  "select_cart_line d cartId productId = Some l \<Longrightarrow>
     l \<in> set (cart_items d) \<and> ci_cart_id l = cartId \<and> ci_product_id l = productId"
  by (auto simp: select_cart_line_def find_Some_iff)

lemma select_cart_line_None:
  "select_cart_line d cartId productId = None \<longleftrightarrow>
     \<not> list_ex (\<lambda>ci. ci_cart_id ci = cartId \<and> ci_product_id ci = productId) (cart_items d)"
  by (auto simp: select_cart_line_def find_None_iff list_ex_iff)

lemma line_unique:
  assumes "distinct (map (\<lambda>ci. (ci_cart_id ci, ci_product_id ci)) (cart_items d))"
    and "select_cart_line d cartId productId = Some l"
    and "ci \<in> set (cart_items d)" and "ci_cart_id ci = cartId" and "ci_product_id ci = productId"
  shows "ci = l"
proof -
  from assms(2) have l: "l \<in> set (cart_items d)" "ci_cart_id l = cartId" "ci_product_id l = productId"
    by (simp_all add: select_cart_line_Some)
  from assms(1) have "inj_on (\<lambda>ci. (ci_cart_id ci, ci_product_id ci)) (set (cart_items d))"
    by (simp add: distinct_map)
  with l assms(3-5) show ?thesis
    by (auto dest: inj_onD)
qed

lemma upsert_insert:
  assumes "int4 qty" "0 < qty" "0 \<le> price"
    and "select_cart_line d cartId productId = None"
    and "cartId \<in> set (map c_id (carts d))" and "productId \<in> set (map p_id (products d))"
  shows "upsert_cart_item d cartId productId qty price =
     Inr (d\<lparr>cart_items := cart_items d @
            [\<lparr>ci_cart_id = cartId, ci_product_id = productId, ci_quantity = qty,
              ci_price_cents = price\<rparr>]\<rparr>)"
  using assms(1-3,5,6) assms(4) [unfolded select_cart_line_None]
  by (simp add: upsert_cart_item_def)

lemma upsert_merge:
  assumes "int4 qty" "0 < qty" "0 \<le> price"
    and key: "distinct (map (\<lambda>ci. (ci_cart_id ci, ci_product_id ci)) (cart_items d))"
    and l: "select_cart_line d cartId productId = Some l"
    and sum: "int4 (ci_quantity l + qty)" "0 < ci_quantity l + qty"
  shows "upsert_cart_item d cartId productId qty price =
     Inr (d\<lparr>cart_items :=
            map (\<lambda>ci. if ci_cart_id ci = cartId \<and> ci_product_id ci = productId
                       then ci\<lparr>ci_quantity := ci_quantity ci + qty\<rparr> else ci) (cart_items d)\<rparr>)"
proof -
  let ?hit = "\<lambda>ci. ci_cart_id ci = cartId \<and> ci_product_id ci = productId"
  from l have ex: "list_ex ?hit (cart_items d)"
    using select_cart_line_None [of d cartId productId] by simp
  have all: "\<forall>ci \<in> set (cart_items d). ?hit ci \<longrightarrow> ci = l"
    using line_unique [OF key l] by blast
  have a: "\<not> list_ex (\<lambda>ci. ?hit ci \<and> \<not> int4 (ci_quantity ci + qty)) (cart_items d)"
    using all sum(1) unfolding list_ex_iff by blast
  have b: "\<not> list_ex (\<lambda>ci. ?hit ci \<and> \<not> (ci_quantity ci + qty > 0)) (cart_items d)"
    using all sum(2) unfolding list_ex_iff by blast
  show ?thesis
    using assms(1-3) ex a b by (simp add: upsert_cart_item_def)
qed

lemma active_or_new_cart_old:
  "select_active_cart d = Some cartId \<Longrightarrow> active_or_new_cart d = (Inr cartId, d)"
  by (simp add: active_or_new_cart_def)

lemma active_or_new_cart_new:
  assumes "carts_ok d" and "select_active_cart d = None"
  shows "active_or_new_cart d =
     (Inr (carts_id_seq d),
      d\<lparr>carts := carts d @
           [\<lparr>c_id = carts_id_seq d, c_customer_id = the_customer, c_status = Active\<rparr>],
         carts_id_seq := carts_id_seq d + 1\<rparr>)"
  using assms by (simp add: active_or_new_cart_def insert_cart_fresh)

lemma new_cart_has_no_line:
  assumes "carts_ok d" and "cart_items_ok d"
  shows "\<not> list_ex (\<lambda>ci. ci_cart_id ci = carts_id_seq d \<and> ci_product_id ci = productId) (cart_items d)"
proof
  assume "list_ex (\<lambda>ci. ci_cart_id ci = carts_id_seq d \<and> ci_product_id ci = productId) (cart_items d)"
  then obtain ci where ci: "ci \<in> set (cart_items d)" "ci_cart_id ci = carts_id_seq d"
    by (auto simp: list_ex_iff)
  with assms(2) have "carts_id_seq d \<in> set (map c_id (carts d))"
    unfolding cart_items_ok_def by force
  with assms(1) show False
    unfolding carts_ok_def by force
qed

text \<open>The three ways a call with an existing product can go.\<close>

lemma add_item_body_reject:
  assumes "active_or_new_cart d = (Inr cartId, d1)" and "int4 productId"
    and "select_product d1 productId = Some pr"
    and "(case select_cart_line d1 cartId productId of Some l \<Rightarrow> ci_quantity l | None \<Rightarrow> 0) + qty
           > p_stock pr"
  shows "cart_add_item_body productId (Some qty) d = (Inl NotEnoughStock, d1)"
  using assms by (simp add: cart_add_item_body_def Let_def)

lemma add_item_body_insert:
  assumes "active_or_new_cart d = (Inr cartId, d1)" and "int4 productId"
    and "select_product d1 productId = Some pr"
    and "select_cart_line d1 cartId productId = None"
    and "qty \<le> p_stock pr"
    and "upsert_cart_item d1 cartId productId qty (p_price_cents pr) = Inr d2"
  shows "cart_add_item_body productId (Some qty) d = (Inr cartId, d2)"
  using assms by (simp add: cart_add_item_body_def Let_def)

lemma add_item_body_merge:
  assumes "active_or_new_cart d = (Inr cartId, d1)" and "int4 productId"
    and "select_product d1 productId = Some pr"
    and "select_cart_line d1 cartId productId = Some l"
    and "ci_quantity l + qty \<le> p_stock pr"
    and "upsert_cart_item d1 cartId productId qty (p_price_cents pr) = Inr d2"
  shows "cart_add_item_body productId (Some qty) d = (Inr cartId, d2)"
  using assms by (simp add: cart_add_item_body_def Let_def)

lemma same_tables_rollback [simp]: "same_tables d (rollback d d')"
  by (simp add: same_tables_def)

lemma same_tables_refl [simp]: "same_tables d d"
  by (simp add: same_tables_def)

lemma transaction_Inl_tables:
  "body d = (Inl e, d') \<Longrightarrow>
     fst (transaction body d) = Inl e \<and> same_tables d (snd (transaction body d))"
  by (simp add: transaction_def)

lemma add_item_guard_aux:
  assumes wf: "wf_db d" and pr: "select_product d productId = Some pr" and q: "0 < qty"
  shows "(existing_quantity d productId + qty > p_stock pr \<longrightarrow>
            (\<exists>d1. cart_add_item_body productId (Some qty) d = (Inl NotEnoughStock, d1))) \<and>
         (existing_quantity d productId + qty \<le> p_stock pr \<longrightarrow>
            (\<exists>cartId d2. cart_add_item_body productId (Some qty) d = (Inr cartId, d2)))"
proof -
  from wf have pok: "products_ok d" and cok: "carts_ok d" and iok: "cart_items_ok d"
    by (simp_all add: wf_db_def)
  from pr have mem: "pr \<in> set (products d)" and pid: "p_id pr = productId"
    by (simp_all add: select_product_Some)
  from pok mem pid have r: "int4 productId" "int4 (p_stock pr)" "0 \<le> p_price_cents pr"
    by (auto simp: products_ok_def)
  from mem pid have pin: "productId \<in> set (map p_id (products d))" by auto
  from iok have key: "distinct (map (\<lambda>ci. (ci_cart_id ci, ci_product_id ci)) (cart_items d))"
    by (simp add: cart_items_ok_def)
  show ?thesis
  proof (cases "select_active_cart d")
    case None
    let ?c = "carts_id_seq d"
    let ?d1 = "d\<lparr>carts := carts d @
           [\<lparr>c_id = carts_id_seq d, c_customer_id = the_customer, c_status = Active\<rparr>],
         carts_id_seq := carts_id_seq d + 1\<rparr>"
    from cok None have an: "active_or_new_cart d = (Inr ?c, ?d1)"
      by (rule active_or_new_cart_new)
    have pr1: "select_product ?d1 productId = Some pr"
      using pr by (simp add: select_product_def)
    have nl: "select_cart_line ?d1 ?c productId = None"
      using new_cart_has_no_line [OF cok iok, of productId]
      by (simp add: select_cart_line_None)
    from None have ex: "existing_quantity d productId = 0"
      by (simp add: existing_quantity_def)
    show ?thesis
    proof (intro conjI impI)
      assume "existing_quantity d productId + qty > p_stock pr"
      with ex nl have "(case select_cart_line ?d1 ?c productId of Some l \<Rightarrow> ci_quantity l | None \<Rightarrow> 0) + qty
           > p_stock pr" by simp
      from add_item_body_reject [OF an r(1) pr1 this]
      show "\<exists>d1. cart_add_item_body productId (Some qty) d = (Inl NotEnoughStock, d1)" ..
    next
      assume "existing_quantity d productId + qty \<le> p_stock pr"
      with ex have le: "qty \<le> p_stock pr" by simp
      with q r(2) have q4: "int4 qty" by (simp add: int4_def)
      have "upsert_cart_item ?d1 ?c productId qty (p_price_cents pr) =
          Inr (?d1\<lparr>cart_items := cart_items ?d1 @
            [\<lparr>ci_cart_id = ?c, ci_product_id = productId, ci_quantity = qty,
              ci_price_cents = p_price_cents pr\<rparr>]\<rparr>)"
        using q4 q r(3) nl pin by (intro upsert_insert) simp_all
      from add_item_body_insert [OF an r(1) pr1 nl le this]
      show "\<exists>cartId d2. cart_add_item_body productId (Some qty) d = (Inr cartId, d2)"
        by blast
    qed
  next
    case (Some c)
    then have an: "active_or_new_cart d = (Inr c, d)"
      by (rule active_or_new_cart_old)
    from Some have cin: "c \<in> set (map c_id (carts d))"
      by (rule select_active_cart_Some)
    show ?thesis
    proof (cases "select_cart_line d c productId")
      case None
      with Some have ex: "existing_quantity d productId = 0"
        by (simp add: existing_quantity_def)
      show ?thesis
      proof (intro conjI impI)
        assume "existing_quantity d productId + qty > p_stock pr"
        with ex None have "(case select_cart_line d c productId of Some l \<Rightarrow> ci_quantity l | None \<Rightarrow> 0) + qty
             > p_stock pr" by simp
        from add_item_body_reject [OF an r(1) pr this]
        show "\<exists>d1. cart_add_item_body productId (Some qty) d = (Inl NotEnoughStock, d1)" ..
      next
        assume "existing_quantity d productId + qty \<le> p_stock pr"
        with ex have le: "qty \<le> p_stock pr" by simp
        with q r(2) have q4: "int4 qty" by (simp add: int4_def)
        note upsert_insert [OF q4 q r(3) None cin pin]
        from add_item_body_insert [OF an r(1) pr None le this]
        show "\<exists>cartId d2. cart_add_item_body productId (Some qty) d = (Inr cartId, d2)"
          by blast
      qed
    next
      case (Some l)
      with \<open>select_active_cart d = Some c\<close> have ex: "existing_quantity d productId = ci_quantity l"
        by (simp add: existing_quantity_def)
      from Some have "l \<in> set (cart_items d)" by (simp add: select_cart_line_Some)
      with iok have lq: "0 < ci_quantity l" by (simp add: cart_items_ok_def)
      show ?thesis
      proof (intro conjI impI)
        assume "existing_quantity d productId + qty > p_stock pr"
        with ex Some have "(case select_cart_line d c productId of Some l \<Rightarrow> ci_quantity l | None \<Rightarrow> 0) + qty
             > p_stock pr" by simp
        from add_item_body_reject [OF an r(1) pr this]
        show "\<exists>d1. cart_add_item_body productId (Some qty) d = (Inl NotEnoughStock, d1)" ..
      next
        assume "existing_quantity d productId + qty \<le> p_stock pr"
        with ex have le: "ci_quantity l + qty \<le> p_stock pr" by simp
        with q lq r(2) have q4: "int4 qty" "int4 (ci_quantity l + qty)" "0 < ci_quantity l + qty"
          by (simp_all add: int4_def)
        note upsert_merge [OF q4(1) q r(3) key Some q4(2,3)]
        from add_item_body_merge [OF an r(1) pr Some le this]
        show "\<exists>cartId d2. cart_add_item_body productId (Some qty) d = (Inr cartId, d2)"
          by blast
      qed
    qed
  qed
qed

text \<open>
  C4. On a store that satisfies its schema, for a product that exists and a quantity
  above 0: when the quantity already in the active cart for the product (0 without a
  line or a cart) plus the requested quantity exceeds the product's stock,
  \<open>cart.add_item\<close> ends with \<open>Not enough stock\<close> and every table is as before the call
  (no cart, no line, no quantity has changed); otherwise the call succeeds and returns a
  cart id.
\<close>

theorem add_item_guard:
  assumes "wf_db d" and "select_product d productId = Some pr" and "0 < qty"
  shows "(existing_quantity d productId + qty > p_stock pr \<longrightarrow>
            fst (cart_add_item productId (Some qty) d) = Inl NotEnoughStock \<and>
            same_tables d (snd (cart_add_item productId (Some qty) d))) \<and>
         (existing_quantity d productId + qty \<le> p_stock pr \<longrightarrow>
            (\<exists>cartId. fst (cart_add_item productId (Some qty) d) = Inr cartId))"
proof (intro conjI impI)
  assume "existing_quantity d productId + qty > p_stock pr"
  with add_item_guard_aux [OF assms] obtain d1 where
    "cart_add_item_body productId (Some qty) d = (Inl NotEnoughStock, d1)" by blast
  then have "fst (cart_add_item productId (Some qty) d) = Inl NotEnoughStock \<and>
      same_tables d (snd (cart_add_item productId (Some qty) d))"
    unfolding cart_add_item_def by (rule transaction_Inl_tables)
  then show "fst (cart_add_item productId (Some qty) d) = Inl NotEnoughStock"
    and "same_tables d (snd (cart_add_item productId (Some qty) d))"
    by simp_all
next
  assume "existing_quantity d productId + qty \<le> p_stock pr"
  with add_item_guard_aux [OF assms] obtain cartId d2 where
    "cart_add_item_body productId (Some qty) d = (Inr cartId, d2)" by blast
  then have "fst (cart_add_item productId (Some qty) d) = Inr cartId"
    by (simp add: cart_add_item_def transaction_def)
  then show "\<exists>cartId. fst (cart_add_item productId (Some qty) d) = Inr cartId" ..
qed

theorem add_item_guard_witness:
  "wf_db shop_cart \<and> existing_quantity shop_cart 2 = 1 \<and>
   fst (cart_add_item 2 (Some 1) shop_cart) = Inl NotEnoughStock \<and>
   same_tables shop_cart (snd (cart_add_item 2 (Some 1) shop_cart)) \<and>
   existing_quantity shop_cart 1 = 2 \<and>
   (\<exists>cartId. fst (cart_add_item 1 (Some 8) shop_cart) = Inr cartId) \<and>
   wf_db shop \<and> existing_quantity shop 2 = 0 \<and>
   fst (cart_add_item 2 (Some 2) shop) = Inl NotEnoughStock \<and>
   same_tables shop (snd (cart_add_item 2 (Some 2) shop))"
proof -
  have p2: "select_product shop_cart 2 = Some \<lparr>p_id = 2, p_name = ''Cap'', p_price_cents = 500, p_stock = 1\<rparr>"
    and p1: "select_product shop_cart 1 = Some \<lparr>p_id = 1, p_name = ''Tee'', p_price_cents = 100, p_stock = 10\<rparr>"
    and p0: "select_product shop 2 = Some \<lparr>p_id = 2, p_name = ''Cap'', p_price_cents = 500, p_stock = 1\<rparr>"
    by (simp_all add: select_product_def shop_cart_def shop_def)
  have e2: "existing_quantity shop_cart 2 = 1" and e1: "existing_quantity shop_cart 1 = 2"
    and e0: "existing_quantity shop 2 = 0"
    by (simp_all add: existing_quantity_def select_active_cart_def select_cart_line_def
        shop_cart_def shop_def the_customer_def)
  from add_item_guard [OF wf_shop_cart p2, of 1] e2
  have 1: "fst (cart_add_item 2 (Some 1) shop_cart) = Inl NotEnoughStock \<and>
      same_tables shop_cart (snd (cart_add_item 2 (Some 1) shop_cart))"
    by simp
  from add_item_guard [OF wf_shop_cart p1, of 8] e1
  have 2: "\<exists>cartId. fst (cart_add_item 1 (Some 8) shop_cart) = Inr cartId"
    by simp
  from add_item_guard [OF wf_shop p0, of 2] e0
  have 3: "fst (cart_add_item 2 (Some 2) shop) = Inl NotEnoughStock \<and>
      same_tables shop (snd (cart_add_item 2 (Some 2) shop))"
    by simp
  from wf_shop_cart wf_shop e2 e1 e0 1 2 3 show ?thesis by blast
qed

section \<open>Merging repeated adds\<close>

lemma find_snoc:
  "find P (xs @ [x]) = (case find P xs of Some y \<Rightarrow> Some y | None \<Rightarrow> if P x then Some x else None)"
  by (induction xs) auto

lemma map_if_no_hit:
  "\<not> list_ex P xs \<Longrightarrow> map (\<lambda>x. if P x then f x else x) xs = xs"
  by (induction xs) auto

lemma filter_no_hit: "\<not> list_ex P xs \<Longrightarrow> filter P xs = []"
  by (induction xs) auto

lemma cart_for_new_line:
  assumes wf: "wf_db d"
    and fresh: "\<forall>c. select_active_cart d = Some c \<longrightarrow> select_cart_line d c productId = None"
  shows "\<exists>cartId d1. active_or_new_cart d = (Inr cartId, d1) \<and>
      cart_items d1 = cart_items d \<and> products d1 = products d \<and>
      select_active_cart d1 = Some cartId \<and> select_cart_line d1 cartId productId = None"
proof -
  from wf have cok: "carts_ok d" and iok: "cart_items_ok d"
    by (simp_all add: wf_db_def)
  show ?thesis
  proof (cases "select_active_cart d")
    case None
    let ?c = "carts_id_seq d"
    let ?d1 = "d\<lparr>carts := carts d @
           [\<lparr>c_id = carts_id_seq d, c_customer_id = the_customer, c_status = Active\<rparr>],
         carts_id_seq := carts_id_seq d + 1\<rparr>"
    from cok None have an: "active_or_new_cart d = (Inr ?c, ?d1)"
      by (rule active_or_new_cart_new)
    from None have "find (\<lambda>c. c_customer_id c = the_customer \<and> c_status c = Active) (carts d) = None"
      by (simp add: select_active_cart_def)
    then have ac: "select_active_cart ?d1 = Some ?c"
      by (simp add: select_active_cart_def find_snoc)
    have nl: "select_cart_line ?d1 ?c productId = None"
      using new_cart_has_no_line [OF cok iok, of productId]
      by (simp add: select_cart_line_None)
    from an ac nl show ?thesis by (intro exI [of _ ?c] exI [of _ ?d1]) simp
  next
    case (Some c)
    with fresh have "select_cart_line d c productId = None" by simp
    with Some show ?thesis
      by (intro exI [of _ c] exI [of _ d]) (simp add: active_or_new_cart_old)
  qed
qed

text \<open>
  C7. On a store that satisfies its schema, for a product the active cart has no line
  for and whose stock covers the quantities: \<open>cart.add_item\<close> with quantity 2 and then
  with quantity 3 both succeed on the same cart, even when the products table (prices
  and stock) has been replaced between the two calls by any table in which the product is
  found with stock at least 5 and a price that is not negative. Afterwards the cart
  lines are those from before followed by one line for the cart and the product, with
  quantity 5 and the unit price the product had at the first call; it is the only line
  for that cart and product.
\<close>

theorem add_item_merge:
  assumes wf: "wf_db d" and pr: "select_product d productId = Some pr"
    and fresh: "\<forall>c. select_active_cart d = Some c \<longrightarrow> select_cart_line d c productId = None"
    and st1: "2 \<le> p_stock pr"
    and pr': "find (\<lambda>p. p_id p = productId) ps' = Some pr'"
    and st2: "5 \<le> p_stock pr'" and price': "0 \<le> p_price_cents pr'"
  shows "\<exists>cartId d1 d2.
      cart_add_item productId (Some 2) d = (Inr cartId, d1) \<and>
      cart_add_item productId (Some 3) (d1\<lparr>products := ps'\<rparr>) = (Inr cartId, d2) \<and>
      cart_items d2 = cart_items d @
        [\<lparr>ci_cart_id = cartId, ci_product_id = productId, ci_quantity = 5,
          ci_price_cents = p_price_cents pr\<rparr>] \<and>
      filter (\<lambda>ci. ci_cart_id ci = cartId \<and> ci_product_id ci = productId) (cart_items d2) =
        [\<lparr>ci_cart_id = cartId, ci_product_id = productId, ci_quantity = 5,
          ci_price_cents = p_price_cents pr\<rparr>]"
proof -
  from wf have pok: "products_ok d" and iok: "cart_items_ok d"
    by (simp_all add: wf_db_def)
  from pr have mem: "pr \<in> set (products d)" and pid: "p_id pr = productId"
    by (simp_all add: select_product_Some)
  from pok mem pid have r: "int4 productId" "0 \<le> p_price_cents pr"
    by (auto simp: products_ok_def)
  from mem pid have pin: "productId \<in> set (map p_id (products d))" by auto
  from iok have key: "distinct (map (\<lambda>ci. (ci_cart_id ci, ci_product_id ci)) (cart_items d))"
    by (simp add: cart_items_ok_def)
  from cart_for_new_line [OF wf fresh] obtain c d0 where
    an: "active_or_new_cart d = (Inr c, d0)"
    and items0: "cart_items d0 = cart_items d" and prods0: "products d0 = products d"
    and ac0: "select_active_cart d0 = Some c"
    and nl0: "select_cart_line d0 c productId = None"
    by blast
  let ?hit = "\<lambda>ci. ci_cart_id ci = c \<and> ci_product_id ci = productId"
  let ?l2 = "\<lparr>ci_cart_id = c, ci_product_id = productId, ci_quantity = 2,
              ci_price_cents = p_price_cents pr\<rparr>"
  let ?l5 = "\<lparr>ci_cart_id = c, ci_product_id = productId, ci_quantity = 5,
              ci_price_cents = p_price_cents pr\<rparr>"
  let ?d1 = "d0\<lparr>cart_items := cart_items d0 @ [?l2]\<rparr>"
  from nl0 items0 have nohit: "\<not> list_ex ?hit (cart_items d)"
    by (simp add: select_cart_line_None)
  \<comment> \<open>the first call inserts the line\<close>
  have pr0: "select_product d0 productId = Some pr"
    using pr prods0 by (simp add: select_product_def)
  have cin: "c \<in> set (map c_id (carts d0))"
    using ac0 by (rule select_active_cart_Some)
  have pin0: "productId \<in> set (map p_id (products d0))"
    using pin prods0 by simp
  have up1: "upsert_cart_item d0 c productId 2 (p_price_cents pr) = Inr ?d1"
    by (rule upsert_insert [OF _ _ r(2) nl0 cin pin0]) (simp_all add: int4_def)
  have "cart_add_item_body productId (Some 2) d = (Inr c, ?d1)"
    using an r(1) pr0 nl0 st1 up1 by (rule add_item_body_insert)
  then have call1: "cart_add_item productId (Some 2) d = (Inr c, ?d1)"
    by (simp add: cart_add_item_def transaction_def)
  \<comment> \<open>the second call finds it and raises its quantity\<close>
  let ?e = "?d1\<lparr>products := ps'\<rparr>"
  have ace: "select_active_cart ?e = Some c"
    using ac0 by (simp add: select_active_cart_def)
  then have ane: "active_or_new_cart ?e = (Inr c, ?e)"
    by (rule active_or_new_cart_old)
  have pre: "select_product ?e productId = Some pr'"
    using pr' by (simp add: select_product_def)
  from nohit have "find ?hit (cart_items d) = None"
    by (simp add: find_None_iff list_ex_iff)
  then have le: "select_cart_line ?e c productId = Some ?l2"
    by (simp add: select_cart_line_def items0 find_snoc)
  from nohit have "(c, productId) \<notin> set (map (\<lambda>ci. (ci_cart_id ci, ci_product_id ci)) (cart_items d))"
    by (auto simp: list_ex_iff)
  with key have keye: "distinct (map (\<lambda>ci. (ci_cart_id ci, ci_product_id ci)) (cart_items ?e))"
    by (simp add: items0)
  let ?d2 = "?e\<lparr>cart_items :=
      map (\<lambda>ci. if ?hit ci then ci\<lparr>ci_quantity := ci_quantity ci + 3\<rparr> else ci) (cart_items ?e)\<rparr>"
  have up2: "upsert_cart_item ?e c productId 3 (p_price_cents pr') = Inr ?d2"
    by (rule upsert_merge [OF _ _ price' keye le]) (simp_all add: int4_def)
  have "ci_quantity ?l2 + 3 \<le> p_stock pr'"
    using st2 by simp
  with ane r(1) pre le have "cart_add_item_body productId (Some 3) ?e = (Inr c, ?d2)"
    using up2 by (rule add_item_body_merge)
  then have call2: "cart_add_item productId (Some 3) ?e = (Inr c, ?d2)"
    by (simp add: cart_add_item_def transaction_def)
  have items2: "cart_items ?d2 = cart_items d @ [?l5]"
    using map_if_no_hit [OF nohit, of "\<lambda>ci. ci\<lparr>ci_quantity := ci_quantity ci + 3\<rparr>"]
    by (simp add: items0)
  have only: "filter ?hit (cart_items ?d2) = [?l5]"
    unfolding items2 using filter_no_hit [OF nohit] by simp
  from call1 call2 items2 only show ?thesis
    by blast
qed

theorem add_item_merge_witness:
  "wf_db shop \<and> select_active_cart shop = None \<and>
   (\<exists>cartId d1 d2.
      cart_add_item 2 (Some 2) (shop\<lparr>products := [\<lparr>p_id = 2, p_name = ''Cap'', p_price_cents = 500, p_stock = 9\<rparr>]\<rparr>) = (Inr cartId, d1) \<and>
      cart_add_item 2 (Some 3) (d1\<lparr>products := [\<lparr>p_id = 2, p_name = ''Cap'', p_price_cents = 650, p_stock = 9\<rparr>]\<rparr>) = (Inr cartId, d2) \<and>
      cart_items d2 =
        [\<lparr>ci_cart_id = cartId, ci_product_id = 2, ci_quantity = 5, ci_price_cents = 500\<rparr>])"
proof -
  let ?s = "shop\<lparr>products := [\<lparr>p_id = 2, p_name = ''Cap'', p_price_cents = 500, p_stock = 9\<rparr>]\<rparr>"
  let ?pr = "\<lparr>p_id = 2, p_name = ''Cap'', p_price_cents = 500, p_stock = 9\<rparr>"
  let ?pr' = "\<lparr>p_id = 2, p_name = ''Cap'', p_price_cents = 650, p_stock = 9\<rparr>"
  have wf: "wf_db ?s"
    by (simp add: wf_defs shop_def)
  have pr: "select_product ?s 2 = Some ?pr"
    by (simp add: select_product_def)
  have none: "select_active_cart shop = None" "select_active_cart ?s = None"
    by (simp_all add: select_active_cart_def shop_def)
  then have fresh: "\<forall>c. select_active_cart ?s = Some c \<longrightarrow> select_cart_line ?s c 2 = None"
    by simp
  have pr': "find (\<lambda>p. p_id p = 2) [?pr'] = Some ?pr'"
    by simp
  from add_item_merge [OF wf pr fresh _ pr'] obtain cartId d1 d2 where
    "cart_add_item 2 (Some 2) ?s = (Inr cartId, d1)"
    "cart_add_item 2 (Some 3) (d1\<lparr>products := [?pr']\<rparr>) = (Inr cartId, d2)"
    "cart_items d2 = cart_items ?s @
        [\<lparr>ci_cart_id = cartId, ci_product_id = 2, ci_quantity = 5, ci_price_cents = p_price_cents ?pr\<rparr>]"
    by auto
  moreover have "cart_items ?s = []" by (simp add: shop_def)
  ultimately have "\<exists>cartId d1 d2.
      cart_add_item 2 (Some 2) ?s = (Inr cartId, d1) \<and>
      cart_add_item 2 (Some 3) (d1\<lparr>products := [?pr']\<rparr>) = (Inr cartId, d2) \<and>
      cart_items d2 =
        [\<lparr>ci_cart_id = cartId, ci_product_id = 2, ci_quantity = 5, ci_price_cents = 500\<rparr>]"
    by auto
  with wf_shop none(1) show ?thesis by blast
qed

section \<open>A successful checkout\<close>

text \<open>The order line a cart line is copied into, and the quantity a cart holds of a product.\<close>

definition order_line_of :: "int \<Rightarrow> cart_item \<Rightarrow> order_item" where
  "order_line_of orderId it =
     \<lparr>oi_order_id = orderId, oi_product_id = ci_product_id it, oi_quantity = ci_quantity it,
      oi_price_cents = ci_price_cents it\<rparr>"

definition line_quantity :: "cart_item list \<Rightarrow> int \<Rightarrow> int" where
  "line_quantity items pid =
     (case find (\<lambda>it. ci_product_id it = pid) items of
        Some it \<Rightarrow> ci_quantity it
      | None \<Rightarrow> 0)"

lemma line_quantity_absent:
  "pid \<notin> set (map ci_product_id items) \<Longrightarrow> line_quantity items pid = 0"
  by (induction items) (auto simp: line_quantity_def)

lemma line_quantity_Cons:
  "line_quantity (it # its) pid =
     (if ci_product_id it = pid then ci_quantity it else line_quantity its pid)"
  by (simp add: line_quantity_def)

lemma decrement_compose:
  assumes "ci_product_id it \<notin> set (map ci_product_id its)"
  shows "map (\<lambda>p. p\<lparr>p_stock := p_stock p - line_quantity its (p_id p)\<rparr>)
           (map (\<lambda>p. if p_id p = ci_product_id it
                      then p\<lparr>p_stock := p_stock p - ci_quantity it\<rparr> else p) ps)
         = map (\<lambda>p. p\<lparr>p_stock := p_stock p - line_quantity (it # its) (p_id p)\<rparr>) ps"
  using line_quantity_absent [OF assms]
  by (induction ps) (simp_all add: line_quantity_Cons)

lemma lock_and_check_ok:
  "\<forall>it \<in> set items. \<not> stock_for_update d (ci_product_id it) < ci_quantity it \<Longrightarrow>
     snd (lock_and_check d items) = Inr ()"
  by (induction items) (simp_all add: split_beta)

lemma cart_lines_distinct:
  "distinct (map (\<lambda>ci. (ci_cart_id ci, ci_product_id ci)) xs) \<Longrightarrow>
     distinct (map ci_product_id (filter (\<lambda>ci. ci_cart_id ci = c) xs))"
proof (induction xs)
  case Nil
  then show ?case by simp
next
  case (Cons a xs)
  then have IH: "distinct (map ci_product_id (filter (\<lambda>ci. ci_cart_id ci = c) xs))"
    by simp
  from Cons.prems have notin: "(ci_cart_id a, ci_product_id a) \<notin>
      (\<lambda>ci. (ci_cart_id ci, ci_product_id ci)) ` set xs" by simp
  have "ci_product_id a \<notin> ci_product_id ` set (filter (\<lambda>ci. ci_cart_id ci = c) xs)"
    if c: "ci_cart_id a = c"
  proof
    assume "ci_product_id a \<in> ci_product_id ` set (filter (\<lambda>ci. ci_cart_id ci = c) xs)"
    then obtain y where "y \<in> set xs" "ci_cart_id y = c" "ci_product_id y = ci_product_id a"
      by auto
    with c have "(ci_cart_id a, ci_product_id a) \<in>
        (\<lambda>ci. (ci_cart_id ci, ci_product_id ci)) ` set xs"
      by (intro image_eqI [of _ _ y]) simp_all
    with notin show False ..
  qed
  with IH show ?case by simp
qed

lemma copy_lines_result:
  assumes "distinct (map ci_product_id items)"
    and "\<forall>it \<in> set items. int4 (ci_quantity it) \<and> 0 < ci_quantity it \<and> 0 \<le> ci_price_cents it"
    and "\<forall>it \<in> set items. \<forall>oi \<in> set (order_items d).
           \<not> (oi_order_id oi = orderId \<and> oi_product_id oi = ci_product_id it)"
    and "orderId \<in> set (map o_id (orders d))"
    and "\<forall>it \<in> set items. ci_product_id it \<in> set (map p_id (products d))"
    and "\<forall>it \<in> set items. \<forall>p \<in> set (products d).
           p_id p = ci_product_id it \<longrightarrow> ci_quantity it \<le> p_stock p \<and> int4 (p_stock p)"
  shows "copy_lines d orderId items =
     Inr (d\<lparr>order_items := order_items d @ map (order_line_of orderId) items,
            products := map (\<lambda>p. p\<lparr>p_stock := p_stock p - line_quantity items (p_id p)\<rparr>)
              (products d)\<rparr>)"
  using assms
proof (induction items arbitrary: d)
  case Nil
  then show ?case by (simp add: line_quantity_def)
next
  case (Cons it its)
  let ?pid = "ci_product_id it" and ?q = "ci_quantity it"
  let ?d1 = "d\<lparr>order_items := order_items d @ [order_line_of orderId it]\<rparr>"
  let ?dec = "\<lambda>p. if p_id p = ?pid then p\<lparr>p_stock := p_stock p - ?q\<rparr> else p"
  let ?d2 = "?d1\<lparr>products := map ?dec (products d)\<rparr>"
  from Cons.prems(2) have q: "int4 ?q" "0 < ?q" "0 \<le> ci_price_cents it" by simp_all
  from Cons.prems(3) have nodup:
    "\<not> list_ex (\<lambda>oi. oi_order_id oi = orderId \<and> oi_product_id oi = ?pid) (order_items d)"
    by (simp add: list_ex_iff)
  from Cons.prems(5) have pin: "?pid \<in> set (map p_id (products d))" by simp
  have io: "insert_order_item d orderId ?pid ?q (ci_price_cents it) = Inr ?d1"
    using q nodup pin Cons.prems(4)
    by (simp add: insert_order_item_def order_line_of_def)
  from Cons.prems(6) have st: "\<forall>p \<in> set (products d). p_id p = ?pid \<longrightarrow>
      ?q \<le> p_stock p \<and> int4 (p_stock p)" by simp
  have a: "\<not> list_ex (\<lambda>p. p_id p = ?pid \<and> \<not> int4 (p_stock p - ?q)) (products ?d1)"
    using st q(2) unfolding list_ex_iff int4_def by force
  have b: "\<not> list_ex (\<lambda>p. p_id p = ?pid \<and> p_stock p - ?q < 0) (products ?d1)"
    using st unfolding list_ex_iff by force
  have us: "update_stock ?d1 ?q ?pid = Inr ?d2"
    using q(1) a b by (simp add: update_stock_def)
  from Cons.prems(1) have fresh: "?pid \<notin> set (map ci_product_id its)" and dist: "distinct (map ci_product_id its)"
    by simp_all
  have p2: "\<forall>it' \<in> set its. int4 (ci_quantity it') \<and> 0 < ci_quantity it' \<and> 0 \<le> ci_price_cents it'"
    using Cons.prems(2) by simp
  have p3: "\<forall>it' \<in> set its. \<forall>oi \<in> set (order_items ?d2).
           \<not> (oi_order_id oi = orderId \<and> oi_product_id oi = ci_product_id it')"
    using Cons.prems(3) fresh by (auto simp: order_line_of_def)
  have p4: "orderId \<in> set (map o_id (orders ?d2))"
    using Cons.prems(4) by simp
  have ids: "map p_id (map ?dec (products d)) = map p_id (products d)"
    by (induction "products d") auto
  have p5: "\<forall>it' \<in> set its. ci_product_id it' \<in> set (map p_id (products ?d2))"
    using Cons.prems(5) by (simp add: ids del: map_map)
  have p6: "\<forall>it' \<in> set its. \<forall>p \<in> set (products ?d2).
           p_id p = ci_product_id it' \<longrightarrow> ci_quantity it' \<le> p_stock p \<and> int4 (p_stock p)"
  proof (intro ballI impI)
    fix it' p assume it': "it' \<in> set its" and p: "p \<in> set (products ?d2)"
      and id: "p_id p = ci_product_id it'"
    from p obtain p0 where p0: "p0 \<in> set (products d)" and pp: "p = ?dec p0" by auto
    from it' have "ci_product_id it' \<in> set (map ci_product_id its)" by simp
    with fresh have ne: "ci_product_id it' \<noteq> ?pid" by metis
    have "p_id p = p_id p0" using pp by (simp split: if_splits)
    with id ne pp have "p = p0" by simp
    with p0 id it' Cons.prems(6) show "ci_quantity it' \<le> p_stock p \<and> int4 (p_stock p)"
      by simp
  qed
  note IH = Cons.IH [OF dist p2 p3 p4 p5 p6]
  have "copy_lines d orderId (it # its) = copy_lines ?d2 orderId its"
    by (simp only: copy_lines.simps io us sum.case)
  also note IH
  also have "?d2\<lparr>order_items := order_items ?d2 @ map (order_line_of orderId) its,
            products := map (\<lambda>p. p\<lparr>p_stock := p_stock p - line_quantity its (p_id p)\<rparr>)
              (products ?d2)\<rparr> =
      d\<lparr>order_items := order_items d @ map (order_line_of orderId) (it # its),
        products := map (\<lambda>p. p\<lparr>p_stock := p_stock p - line_quantity (it # its) (p_id p)\<rparr>)
          (products d)\<rparr>"
    using decrement_compose [OF fresh, of "products d"] by (simp del: map_map)
  finally show ?case .
qed

lemma checkout_body_success:
  assumes wf: "wf_db d" and ac: "select_active_cart d = Some cartId"
    and ne: "select_cart_items d cartId \<noteq> []"
    and enough: "\<forall>it \<in> set (select_cart_items d cartId). \<exists>p.
        select_product d (ci_product_id it) = Some p \<and> ci_quantity it \<le> p_stock p"
  shows "cart_checkout_body d =
     (Inr (orders_id_seq d),
      d\<lparr>orders := orders d @ [\<lparr>o_id = orders_id_seq d, o_customer_id = the_customer\<rparr>],
        order_items := order_items d @
          map (order_line_of (orders_id_seq d)) (select_cart_items d cartId),
        products := map (\<lambda>p. p\<lparr>p_stock := p_stock p -
            line_quantity (select_cart_items d cartId) (p_id p)\<rparr>) (products d),
        carts := map (\<lambda>c. if c_id c = cartId then c\<lparr>c_status := CheckedOut\<rparr> else c) (carts d),
        orders_id_seq := orders_id_seq d + 1\<rparr>)"
proof -
  let ?items = "select_cart_items d cartId" and ?oid = "orders_id_seq d"
  from wf have pok: "products_ok d" and cok: "carts_ok d" and iok: "cart_items_ok d"
    and ook: "orders_ok d" and oiok: "order_items_ok d"
    by (simp_all add: wf_db_def)
  have sub: "set ?items \<subseteq> set (cart_items d)"
    by (auto simp: select_cart_items_def)
  \<comment> \<open>the first loop passes\<close>
  have "\<forall>it \<in> set ?items. \<not> stock_for_update d (ci_product_id it) < ci_quantity it"
    using enough by (force simp: stock_for_update_def)
  then have lc: "snd (lock_and_check d ?items) = Inr ()"
    by (rule lock_and_check_ok)
  \<comment> \<open>the order is inserted\<close>
  let ?d1 = "d\<lparr>orders_id_seq := ?oid + 1,
      orders := orders d @ [\<lparr>o_id = ?oid, o_customer_id = the_customer\<rparr>]\<rparr>"
  from ook have fresh: "?oid \<notin> set (map o_id (orders d))" and s4: "int4 ?oid"
    unfolding orders_ok_def by force+
  from cok have cust: "the_customer \<in> set (customers d)" by (simp add: carts_ok_def)
  have io: "insert_order d = (Inr ?oid, ?d1)"
    using fresh s4 cust by (simp add: insert_order_def Let_def)
  \<comment> \<open>the second loop runs to its end\<close>
  have c1: "distinct (map ci_product_id ?items)"
    using iok unfolding cart_items_ok_def select_cart_items_def
    by (intro cart_lines_distinct) simp
  have c2: "\<forall>it \<in> set ?items. int4 (ci_quantity it) \<and> 0 < ci_quantity it \<and> 0 \<le> ci_price_cents it"
    using iok sub unfolding cart_items_ok_def by blast
  have c3: "\<forall>it \<in> set ?items. \<forall>oi \<in> set (order_items ?d1).
           \<not> (oi_order_id oi = ?oid \<and> oi_product_id oi = ci_product_id it)"
    using oiok fresh unfolding order_items_ok_def by force
  have c4: "?oid \<in> set (map o_id (orders ?d1))"
    by simp
  have c5: "\<forall>it \<in> set ?items. ci_product_id it \<in> set (map p_id (products ?d1))"
    using iok sub unfolding cart_items_ok_def by force
  have c6: "\<forall>it \<in> set ?items. \<forall>p \<in> set (products ?d1).
           p_id p = ci_product_id it \<longrightarrow> ci_quantity it \<le> p_stock p \<and> int4 (p_stock p)"
  proof (intro ballI impI)
    fix it p assume it: "it \<in> set ?items" and p: "p \<in> set (products ?d1)"
      and id: "p_id p = ci_product_id it"
    from enough it obtain p' where p': "select_product d (ci_product_id it) = Some p'"
      and le: "ci_quantity it \<le> p_stock p'" by blast
    from p' have "p' \<in> set (products d)" "p_id p' = ci_product_id it"
      by (simp_all add: select_product_Some)
    moreover from pok have "inj_on p_id (set (products d))"
      by (simp add: products_ok_def distinct_map)
    ultimately have "p = p'" using p id by (simp add: inj_on_def)
    moreover from pok p have "int4 (p_stock p)" by (simp add: products_ok_def)
    ultimately show "ci_quantity it \<le> p_stock p \<and> int4 (p_stock p)"
      using le by simp
  qed
  note cl = copy_lines_result [OF c1 c2 c3 c4 c5 c6]
  show ?thesis
    unfolding cart_checkout_body_def Let_def
    by (simp only: ac option.case ne if_False lc sum.case io prod.case cl)
      (simp add: mark_checked_out_def)
qed

text \<open>
  C3. \<open>cart.checkout\<close> ends with \<open>No active cart\<close> when the customer has no active
  cart and with \<open>Cart is empty\<close> when the active cart has no lines, leaving the store
  as it was. Otherwise, on a store that satisfies its schema, when every line's
  quantity is at most the current stock of its product, it returns the id of a new
  order and leaves the store changed in exactly this: the order is appended; each cart
  line is copied into an order line with the line's product, quantity and snapshot
  price (the products' current prices are not read); each product's stock is lowered by
  the quantity of the cart's line for it (by 0 without one); the cart's status is
  \<open>checked_out\<close>; the order sequence has advanced.
\<close>

theorem checkout_success:
  "(select_active_cart d = None \<longrightarrow> cart_checkout d = (Inl NoActiveCart, d)) \<and>
   (\<forall>cartId. select_active_cart d = Some cartId \<and> select_cart_items d cartId = [] \<longrightarrow>
      cart_checkout d = (Inl CartIsEmpty, d)) \<and>
   (\<forall>cartId. wf_db d \<and> select_active_cart d = Some cartId \<and>
        select_cart_items d cartId \<noteq> [] \<and>
        (\<forall>it \<in> set (select_cart_items d cartId). \<exists>p.
           select_product d (ci_product_id it) = Some p \<and> ci_quantity it \<le> p_stock p) \<longrightarrow>
      cart_checkout d =
        (Inr (orders_id_seq d),
         d\<lparr>orders := orders d @ [\<lparr>o_id = orders_id_seq d, o_customer_id = the_customer\<rparr>],
           order_items := order_items d @
             map (order_line_of (orders_id_seq d)) (select_cart_items d cartId),
           products := map (\<lambda>p. p\<lparr>p_stock := p_stock p -
               line_quantity (select_cart_items d cartId) (p_id p)\<rparr>) (products d),
           carts := map (\<lambda>c. if c_id c = cartId then c\<lparr>c_status := CheckedOut\<rparr> else c) (carts d),
           orders_id_seq := orders_id_seq d + 1\<rparr>))"
proof (intro conjI allI impI)
  assume "select_active_cart d = None"
  then show "cart_checkout d = (Inl NoActiveCart, d)"
    by (simp add: cart_checkout_def transaction_def cart_checkout_body_def)
next
  fix cartId assume "select_active_cart d = Some cartId \<and> select_cart_items d cartId = []"
  then show "cart_checkout d = (Inl CartIsEmpty, d)"
    by (simp add: cart_checkout_def transaction_def cart_checkout_body_def)
next
  fix cartId
  assume a: "wf_db d \<and> select_active_cart d = Some cartId \<and>
        select_cart_items d cartId \<noteq> [] \<and>
        (\<forall>it \<in> set (select_cart_items d cartId). \<exists>p.
           select_product d (ci_product_id it) = Some p \<and> ci_quantity it \<le> p_stock p)"
  then have "cart_checkout_body d =
     (Inr (orders_id_seq d),
      d\<lparr>orders := orders d @ [\<lparr>o_id = orders_id_seq d, o_customer_id = the_customer\<rparr>],
        order_items := order_items d @
          map (order_line_of (orders_id_seq d)) (select_cart_items d cartId),
        products := map (\<lambda>p. p\<lparr>p_stock := p_stock p -
            line_quantity (select_cart_items d cartId) (p_id p)\<rparr>) (products d),
        carts := map (\<lambda>c. if c_id c = cartId then c\<lparr>c_status := CheckedOut\<rparr> else c) (carts d),
        orders_id_seq := orders_id_seq d + 1\<rparr>)"
    by (intro checkout_body_success) simp_all
  then show "cart_checkout d =
        (Inr (orders_id_seq d),
         d\<lparr>orders := orders d @ [\<lparr>o_id = orders_id_seq d, o_customer_id = the_customer\<rparr>],
           order_items := order_items d @
             map (order_line_of (orders_id_seq d)) (select_cart_items d cartId),
           products := map (\<lambda>p. p\<lparr>p_stock := p_stock p -
               line_quantity (select_cart_items d cartId) (p_id p)\<rparr>) (products d),
           carts := map (\<lambda>c. if c_id c = cartId then c\<lparr>c_status := CheckedOut\<rparr> else c) (carts d),
           orders_id_seq := orders_id_seq d + 1\<rparr>)"
    by (simp add: cart_checkout_def transaction_def)
qed

text \<open>
  The checkout scenario of the specification: lines (P1, 2, 100) and (P2, 1, 500) with
  stocks 10 and 1 give an order of two lines, stocks 8 and 0, and a checked-out cart. The
  products' prices are raised before the checkout: the order lines keep the snapshots.
\<close>

definition shop_repriced :: db where
  "shop_repriced = shop_cart\<lparr>products :=
       [\<lparr>p_id = 1, p_name = ''Tee'', p_price_cents = 120, p_stock = 10\<rparr>,
        \<lparr>p_id = 2, p_name = ''Cap'', p_price_cents = 650, p_stock = 1\<rparr>]\<rparr>"

theorem checkout_success_witness:
  "wf_db shop_repriced \<and> select_active_cart shop_repriced = Some 1 \<and>
   cart_checkout shop_repriced =
     (Inr 1,
      shop_repriced\<lparr>orders := [\<lparr>o_id = 1, o_customer_id = 1\<rparr>],
        order_items :=
          [\<lparr>oi_order_id = 1, oi_product_id = 2, oi_quantity = 1, oi_price_cents = 500\<rparr>,
           \<lparr>oi_order_id = 1, oi_product_id = 1, oi_quantity = 2, oi_price_cents = 100\<rparr>],
        products :=
          [\<lparr>p_id = 1, p_name = ''Tee'', p_price_cents = 120, p_stock = 8\<rparr>,
           \<lparr>p_id = 2, p_name = ''Cap'', p_price_cents = 650, p_stock = 0\<rparr>],
        carts := [\<lparr>c_id = 1, c_customer_id = 1, c_status = CheckedOut\<rparr>],
        orders_id_seq := 2\<rparr>) \<and>
   cart_checkout shop = (Inl NoActiveCart, shop) \<and>
   cart_checkout (shop_cart\<lparr>cart_items := []\<rparr>) = (Inl CartIsEmpty, shop_cart\<lparr>cart_items := []\<rparr>)"
proof -
  have wf: "wf_db shop_repriced"
    by (simp add: wf_defs shop_repriced_def shop_cart_def shop_def)
  have ac: "select_active_cart shop_repriced = Some 1"
    by (simp add: select_active_cart_def shop_repriced_def shop_cart_def shop_def the_customer_def)
  have items: "select_cart_items shop_repriced 1 =
      [\<lparr>ci_cart_id = 1, ci_product_id = 2, ci_quantity = 1, ci_price_cents = 500\<rparr>,
       \<lparr>ci_cart_id = 1, ci_product_id = 1, ci_quantity = 2, ci_price_cents = 100\<rparr>]"
    by (simp add: select_cart_items_def shop_repriced_def shop_cart_def shop_def)
  have enough: "\<forall>it \<in> set (select_cart_items shop_repriced 1). \<exists>p.
      select_product shop_repriced (ci_product_id it) = Some p \<and> ci_quantity it \<le> p_stock p"
    unfolding items
    by (simp add: select_product_def shop_repriced_def shop_cart_def shop_def)
  from items have ne: "select_cart_items shop_repriced 1 \<noteq> []" by simp
  from checkout_success [of shop_repriced] wf ac ne enough
  have "cart_checkout shop_repriced =
        (Inr (orders_id_seq shop_repriced),
         shop_repriced\<lparr>orders := orders shop_repriced @
             [\<lparr>o_id = orders_id_seq shop_repriced, o_customer_id = the_customer\<rparr>],
           order_items := order_items shop_repriced @
             map (order_line_of (orders_id_seq shop_repriced)) (select_cart_items shop_repriced 1),
           products := map (\<lambda>p. p\<lparr>p_stock := p_stock p -
               line_quantity (select_cart_items shop_repriced 1) (p_id p)\<rparr>) (products shop_repriced),
           carts := map (\<lambda>c. if c_id c = 1 then c\<lparr>c_status := CheckedOut\<rparr> else c) (carts shop_repriced),
           orders_id_seq := orders_id_seq shop_repriced + 1\<rparr>)"
    by blast
  then have 1: "cart_checkout shop_repriced =
     (Inr 1,
      shop_repriced\<lparr>orders := [\<lparr>o_id = 1, o_customer_id = 1\<rparr>],
        order_items :=
          [\<lparr>oi_order_id = 1, oi_product_id = 2, oi_quantity = 1, oi_price_cents = 500\<rparr>,
           \<lparr>oi_order_id = 1, oi_product_id = 1, oi_quantity = 2, oi_price_cents = 100\<rparr>],
        products :=
          [\<lparr>p_id = 1, p_name = ''Tee'', p_price_cents = 120, p_stock = 8\<rparr>,
           \<lparr>p_id = 2, p_name = ''Cap'', p_price_cents = 650, p_stock = 0\<rparr>],
        carts := [\<lparr>c_id = 1, c_customer_id = 1, c_status = CheckedOut\<rparr>],
        orders_id_seq := 2\<rparr>)"
    unfolding items
    by (simp add: order_line_of_def line_quantity_def the_customer_def
        shop_repriced_def shop_cart_def shop_def)
  have "select_active_cart shop = None"
    by (simp add: select_active_cart_def shop_def)
  with checkout_success [of shop] have 2: "cart_checkout shop = (Inl NoActiveCart, shop)"
    by blast
  have "select_active_cart (shop_cart\<lparr>cart_items := []\<rparr>) = Some 1 \<and>
      select_cart_items (shop_cart\<lparr>cart_items := []\<rparr>) 1 = []"
    by (simp add: select_active_cart_def select_cart_items_def shop_cart_def shop_def the_customer_def)
  with checkout_success [of "shop_cart\<lparr>cart_items := []\<rparr>"]
  have 3: "cart_checkout (shop_cart\<lparr>cart_items := []\<rparr>) =
      (Inl CartIsEmpty, shop_cart\<lparr>cart_items := []\<rparr>)"
    by blast
  from wf ac 1 2 3 show ?thesis by blast
qed

section \<open>The integrity of the store is kept\<close>

text \<open>Neither id sequence is at its last value.\<close>

definition seqs_open :: "db \<Rightarrow> bool" where
  "seqs_open d = (carts_id_seq d < 2147483647 \<and> orders_id_seq d < 2147483647)"

lemma wf_rollback:
  assumes "wf_db d" and "seqs_open d"
    and "carts_id_seq d' = carts_id_seq d \<or> carts_id_seq d' = carts_id_seq d + 1"
    and "orders_id_seq d' = orders_id_seq d \<or> orders_id_seq d' = orders_id_seq d + 1"
  shows "wf_db (rollback d d')"
proof -
  from assms(1) have c: "carts_ok d" and o: "orders_ok d" by (simp_all add: wf_db_def)
  from c assms(2,3) have 1: "int4 (carts_id_seq d')" "carts_id_seq d \<le> carts_id_seq d'"
    by (auto simp: carts_ok_def seqs_open_def int4_def)
  from o assms(2,4) have 2: "int4 (orders_id_seq d')" "orders_id_seq d \<le> orders_id_seq d'"
    by (auto simp: orders_ok_def seqs_open_def int4_def)
  have "carts_ok (rollback d d')"
    using c 1 unfolding carts_ok_def rollback_def by fastforce
  moreover have "orders_ok (rollback d d')"
    using o 2 unfolding orders_ok_def rollback_def by fastforce
  moreover have "products_ok (rollback d d')" "cart_items_ok (rollback d d')"
    "order_items_ok (rollback d d')"
    using assms(1)
    by (simp_all add: wf_db_def products_ok_def cart_items_ok_def order_items_ok_def)
  ultimately show ?thesis by (simp add: wf_db_def)
qed

lemma insert_cart_seq:
  "carts_id_seq (snd (insert_cart d)) = carts_id_seq d \<or>
   carts_id_seq (snd (insert_cart d)) = carts_id_seq d + 1"
  by (simp add: insert_cart_def Let_def)

lemma insert_order_seq:
  "orders_id_seq (snd (insert_order d)) = orders_id_seq d \<or>
   orders_id_seq (snd (insert_order d)) = orders_id_seq d + 1"
  by (simp add: insert_order_def Let_def)

lemma insert_cart_wf:
  assumes "wf_db d" and "seqs_open d"
  shows "wf_db (snd (insert_cart d))"
proof -
  from assms(1) have c: "carts_ok d" and i: "cart_items_ok d" by (simp_all add: wf_db_def)
  from c assms(2) have s4: "int4 (carts_id_seq d + 1)"
    by (simp add: carts_ok_def seqs_open_def int4_def)
  let ?new = "\<lparr>c_id = carts_id_seq d, c_customer_id = the_customer, c_status = Active\<rparr>"
  have bump: "carts_ok (d\<lparr>carts_id_seq := carts_id_seq d + 1\<rparr>)"
    using c s4 unfolding carts_ok_def by fastforce
  have new: "carts_ok (d\<lparr>carts_id_seq := carts_id_seq d + 1, carts := carts d @ [?new]\<rparr>)"
    if "carts_id_seq d \<notin> set (map c_id (carts d))"
      and "\<not> list_ex (\<lambda>c. c_customer_id c = the_customer \<and> c_status c = Active) (carts d)"
  proof -
    from that(2) have "the_customer \<notin>
        set (map c_customer_id (filter (\<lambda>c. c_status c = Active) (carts d)))"
      by (auto simp: list_ex_iff)
    with c s4 that(1) show ?thesis
      unfolding carts_ok_def by fastforce
  qed
  have items: "cart_items_ok (d\<lparr>carts_id_seq := carts_id_seq d + 1, carts := carts d @ [?new]\<rparr>)"
    using i unfolding cart_items_ok_def by fastforce
  have rest: "products_ok (snd (insert_cart d))" "orders_ok (snd (insert_cart d))"
    "order_items_ok (snd (insert_cart d))"
    using assms(1) by (simp_all add: wf_db_def products_ok_def orders_ok_def order_items_ok_def)
  have "carts_ok (snd (insert_cart d)) \<and> cart_items_ok (snd (insert_cart d))"
    using c i bump new items
    by (simp add: insert_cart_def Let_def cart_items_ok_def)
  with rest show ?thesis by (simp add: wf_db_def)
qed

lemma insert_order_wf:
  assumes "wf_db d" and "seqs_open d"
  shows "wf_db (snd (insert_order d))"
proof -
  from assms(1) have o: "orders_ok d" and oi: "order_items_ok d" and c: "carts_ok d"
    by (simp_all add: wf_db_def)
  from o assms(2) have s4: "int4 (orders_id_seq d + 1)"
    by (simp add: orders_ok_def seqs_open_def int4_def)
  let ?new = "\<lparr>o_id = orders_id_seq d, o_customer_id = the_customer\<rparr>"
  have bump: "orders_ok (d\<lparr>orders_id_seq := orders_id_seq d + 1\<rparr>)"
    using o s4 unfolding orders_ok_def by fastforce
  have new: "orders_ok (d\<lparr>orders_id_seq := orders_id_seq d + 1, orders := orders d @ [?new]\<rparr>)"
    if "orders_id_seq d \<notin> set (map o_id (orders d))" "the_customer \<in> set (customers d)"
    using o s4 that unfolding orders_ok_def by fastforce
  have items: "order_items_ok (d\<lparr>orders_id_seq := orders_id_seq d + 1, orders := orders d @ [?new]\<rparr>)"
    using oi unfolding order_items_ok_def by fastforce
  have rest: "products_ok (snd (insert_order d))" "carts_ok (snd (insert_order d))"
    "cart_items_ok (snd (insert_order d))"
    using assms(1) by (simp_all add: wf_db_def products_ok_def carts_ok_def cart_items_ok_def)
  have "orders_ok (snd (insert_order d)) \<and> order_items_ok (snd (insert_order d))"
    using o oi bump new items
    by (simp add: insert_order_def Let_def order_items_ok_def)
  with rest show ?thesis by (simp add: wf_db_def)
qed

lemma upsert_cart_item_wf:
  assumes wf: "wf_db d" and price: "int4 price"
    and up: "upsert_cart_item d cartId productId qty price = Inr d'"
  shows "wf_db d'"
proof -
  let ?hit = "\<lambda>ci. ci_cart_id ci = cartId \<and> ci_product_id ci = productId"
  from wf have i: "cart_items_ok d" by (simp add: wf_db_def)
  note fr = upsert_cart_item_frame [OF up]
  from up have q: "int4 qty" "0 < qty" "0 \<le> price"
    by (auto simp: upsert_cart_item_def split: if_splits)
  have "cart_items_ok d'"
  proof (cases "list_ex ?hit (cart_items d)")
    case True
    with up q have ok: "\<forall>ci \<in> set (cart_items d). ?hit ci \<longrightarrow>
        int4 (ci_quantity ci + qty) \<and> 0 < ci_quantity ci + qty"
      and d': "cart_items d' =
        map (\<lambda>ci. if ?hit ci then ci\<lparr>ci_quantity := ci_quantity ci + qty\<rparr> else ci) (cart_items d)"
      by (auto simp: upsert_cart_item_def list_ex_iff split: if_splits)
    have keys: "map (\<lambda>ci. (ci_cart_id ci, ci_product_id ci)) (cart_items d') =
        map (\<lambda>ci. (ci_cart_id ci, ci_product_id ci)) (cart_items d)"
      unfolding d' by (induction "cart_items d") auto
    have each: "\<forall>ci \<in> set (cart_items d').
         ci_cart_id ci \<in> set (map c_id (carts d)) \<and>
         ci_product_id ci \<in> set (map p_id (products d)) \<and>
         0 < ci_quantity ci \<and> int4 (ci_quantity ci) \<and>
         0 \<le> ci_price_cents ci \<and> int4 (ci_price_cents ci)"
    proof
      fix ci assume "ci \<in> set (cart_items d')"
      then obtain c0 where c0: "c0 \<in> set (cart_items d)"
        and ci: "ci = (if ?hit c0 then c0\<lparr>ci_quantity := ci_quantity c0 + qty\<rparr> else c0)"
        unfolding d' by auto
      from i c0 have "ci_cart_id c0 \<in> set (map c_id (carts d)) \<and>
         ci_product_id c0 \<in> set (map p_id (products d)) \<and>
         0 < ci_quantity c0 \<and> int4 (ci_quantity c0) \<and>
         0 \<le> ci_price_cents c0 \<and> int4 (ci_price_cents c0)"
        by (simp add: cart_items_ok_def)
      with ok c0 ci show "ci_cart_id ci \<in> set (map c_id (carts d)) \<and>
         ci_product_id ci \<in> set (map p_id (products d)) \<and>
         0 < ci_quantity ci \<and> int4 (ci_quantity ci) \<and>
         0 \<le> ci_price_cents ci \<and> int4 (ci_price_cents ci)"
        by (cases "?hit c0") simp_all
    qed
    from i keys each show ?thesis
      unfolding cart_items_ok_def fr by simp
  next
    case False
    with up q have fk: "cartId \<in> set (map c_id (carts d))" "productId \<in> set (map p_id (products d))"
      and d': "cart_items d' = cart_items d @
        [\<lparr>ci_cart_id = cartId, ci_product_id = productId, ci_quantity = qty,
          ci_price_cents = price\<rparr>]"
      by (auto simp: upsert_cart_item_def split: if_splits)
    from False have "(cartId, productId) \<notin>
        set (map (\<lambda>ci. (ci_cart_id ci, ci_product_id ci)) (cart_items d))"
      by (auto simp: list_ex_iff)
    with i q price fk show ?thesis
      unfolding cart_items_ok_def fr d' by simp
  qed
  moreover from wf fr have "products_ok d'" "carts_ok d'" "orders_ok d'" "order_items_ok d'"
    by (simp_all add: wf_db_def products_ok_def carts_ok_def orders_ok_def order_items_ok_def)
  ultimately show ?thesis by (simp add: wf_db_def)
qed

lemma insert_order_item_wf:
  assumes wf: "wf_db d"
    and ins: "insert_order_item d orderId productId qty price = Inr d'"
  shows "wf_db d'"
proof -
  from wf have oi: "order_items_ok d" by (simp add: wf_db_def)
  note fr = insert_order_item_frame [OF ins]
  from ins have q: "0 < qty" "0 \<le> price"
    and nodup: "\<not> list_ex (\<lambda>oi. oi_order_id oi = orderId \<and> oi_product_id oi = productId) (order_items d)"
    and fk: "orderId \<in> set (map o_id (orders d))" "productId \<in> set (map p_id (products d))"
    by (auto simp: insert_order_item_def split: if_splits)
  from nodup have "(orderId, productId) \<notin>
      set (map (\<lambda>oi. (oi_order_id oi, oi_product_id oi)) (order_items d))"
    by (auto simp: list_ex_iff)
  with oi q fk have "order_items_ok d'"
    unfolding order_items_ok_def fr insert_order_item_Inr [OF ins] by simp
  moreover from wf fr have "products_ok d'" "carts_ok d'" "orders_ok d'" "cart_items_ok d'"
    by (simp_all add: wf_db_def products_ok_def carts_ok_def orders_ok_def cart_items_ok_def)
  ultimately show ?thesis by (simp add: wf_db_def)
qed

lemma update_stock_wf:
  assumes wf: "wf_db d" and us: "update_stock d qty productId = Inr d'"
  shows "wf_db d'"
proof -
  let ?dec = "\<lambda>p. if p_id p = productId then p\<lparr>p_stock := p_stock p - qty\<rparr> else p"
  from wf have p: "products_ok d" by (simp add: wf_db_def)
  note fr = update_stock_frame [OF us]
  from us have ok: "\<forall>p \<in> set (products d). p_id p = productId \<longrightarrow>
      int4 (p_stock p - qty) \<and> 0 \<le> p_stock p - qty"
    and d': "products d' = map ?dec (products d)"
    by (auto simp: update_stock_def list_ex_iff split: if_splits)
  have ids: "map p_id (products d') = map p_id (products d)"
    unfolding d' by (induction "products d") auto
  have each: "\<forall>p \<in> set (products d').
         int4 (p_id p) \<and> int4 (p_price_cents p) \<and> int4 (p_stock p) \<and>
         0 \<le> p_price_cents p \<and> 0 \<le> p_stock p"
  proof
    fix p' assume "p' \<in> set (products d')"
    then obtain p0 where p0: "p0 \<in> set (products d)" and p': "p' = ?dec p0"
      unfolding d' by auto
    from p p0 have "int4 (p_id p0) \<and> int4 (p_price_cents p0) \<and> int4 (p_stock p0) \<and>
         0 \<le> p_price_cents p0 \<and> 0 \<le> p_stock p0"
      by (simp add: products_ok_def)
    with ok p0 p' show "int4 (p_id p') \<and> int4 (p_price_cents p') \<and> int4 (p_stock p') \<and>
         0 \<le> p_price_cents p' \<and> 0 \<le> p_stock p'"
      by (cases "p_id p0 = productId") simp_all
  qed
  from p ids each have "products_ok d'"
    unfolding products_ok_def by simp
  moreover from wf fr ids have "carts_ok d'" "orders_ok d'" "cart_items_ok d'" "order_items_ok d'"
    by (simp_all add: wf_db_def carts_ok_def orders_ok_def cart_items_ok_def order_items_ok_def)
  ultimately show ?thesis by (simp add: wf_db_def)
qed

lemma copy_lines_wf:
  "wf_db d \<Longrightarrow> copy_lines d orderId items = Inr d' \<Longrightarrow> wf_db d'"
proof (induction items arbitrary: d)
  case Nil
  then show ?case by simp
next
  case (Cons it its)
  from Cons.prems(2) obtain d1 d2 where
    1: "insert_order_item d orderId (ci_product_id it) (ci_quantity it) (ci_price_cents it) = Inr d1"
    and 2: "update_stock d1 (ci_quantity it) (ci_product_id it) = Inr d2"
    and 3: "copy_lines d2 orderId its = Inr d'"
    by (auto split: sum.splits)
  from Cons.prems(1) 1 have "wf_db d1" by (rule insert_order_item_wf)
  then have "wf_db d2" using 2 by (rule update_stock_wf)
  then show ?case using 3 by (rule Cons.IH)
qed

lemma distinct_map_filter_sub:
  "distinct (map f (filter P xs)) \<Longrightarrow> (\<And>x. Q x \<Longrightarrow> P x) \<Longrightarrow> distinct (map f (filter Q xs))"
  by (induction xs) (auto split: if_splits)

lemma checked_out_ids:
  "map c_id (map (\<lambda>c. if c_id c = k then c\<lparr>c_status := CheckedOut\<rparr> else c) xs) = map c_id xs"
  by (induction xs) auto

lemma checked_out_active:
  "map c_customer_id (filter (\<lambda>c. c_status c = Active)
       (map (\<lambda>c. if c_id c = k then c\<lparr>c_status := CheckedOut\<rparr> else c) xs)) =
   map c_customer_id (filter (\<lambda>c. c_status c = Active \<and> c_id c \<noteq> k) xs)"
  by (induction xs) auto

lemma mark_checked_out_wf:
  assumes "wf_db d"
  shows "wf_db (mark_checked_out d cartId)"
proof -
  let ?upd = "\<lambda>c. if c_id c = cartId then c\<lparr>c_status := CheckedOut\<rparr> else c"
  from assms have c: "carts_ok d" and i: "cart_items_ok d" by (simp_all add: wf_db_def)
  have ids: "map c_id (map ?upd (carts d)) = map c_id (carts d)"
    by (rule checked_out_ids)
  have act: "map c_customer_id (filter (\<lambda>c. c_status c = Active) (map ?upd (carts d))) =
      map c_customer_id (filter (\<lambda>c. c_status c = Active \<and> c_id c \<noteq> cartId) (carts d))"
    by (rule checked_out_active)
  from c have "distinct (map c_customer_id (filter (\<lambda>c. c_status c = Active) (carts d)))"
    by (simp add: carts_ok_def)
  then have dist: "distinct (map c_customer_id
      (filter (\<lambda>c. c_status c = Active \<and> c_id c \<noteq> cartId) (carts d)))"
    by (rule distinct_map_filter_sub) simp
  have each: "\<forall>c' \<in> set (map ?upd (carts d)).
      c_customer_id c' \<in> set (customers d) \<and> c_id c' < carts_id_seq d"
    using c unfolding carts_ok_def by auto
  have "carts_ok (mark_checked_out d cartId)"
    using c ids act dist each
    unfolding carts_ok_def mark_checked_out_def by (simp del: map_map)
  moreover have "cart_items_ok (mark_checked_out d cartId)"
    using i ids unfolding cart_items_ok_def mark_checked_out_def by (simp del: map_map)
  moreover from assms have "products_ok (mark_checked_out d cartId)"
    "orders_ok (mark_checked_out d cartId)" "order_items_ok (mark_checked_out d cartId)"
    by (simp_all add: wf_db_def products_ok_def orders_ok_def order_items_ok_def)
  ultimately show ?thesis by (simp add: wf_db_def)
qed

lemma delete_cart_line_wf:
  assumes "wf_db d"
  shows "wf_db (snd (delete_cart_line d cartId productId))"
proof -
  from assms have i: "cart_items_ok d" by (simp add: wf_db_def)
  have "cart_items_ok (snd (delete_cart_line d cartId productId))"
    using i unfolding cart_items_ok_def delete_cart_line_def
    by (simp add: distinct_map_filter)
  moreover from assms have "products_ok (snd (delete_cart_line d cartId productId))"
    "carts_ok (snd (delete_cart_line d cartId productId))"
    "orders_ok (snd (delete_cart_line d cartId productId))"
    "order_items_ok (snd (delete_cart_line d cartId productId))"
    by (simp_all add: wf_db_def delete_cart_line_def products_ok_def carts_ok_def orders_ok_def
        order_items_ok_def)
  ultimately show ?thesis by (simp add: wf_db_def)
qed

lemma transaction_wf:
  assumes "wf_db d" and "seqs_open d"
    and "wf_db (snd (body d))"
    and "carts_id_seq (snd (body d)) = carts_id_seq d \<or>
         carts_id_seq (snd (body d)) = carts_id_seq d + 1"
    and "orders_id_seq (snd (body d)) = orders_id_seq d \<or>
         orders_id_seq (snd (body d)) = orders_id_seq d + 1"
  shows "wf_db (snd (transaction body d))"
proof (cases "body d")
  case (Pair res d')
  show ?thesis
  proof (cases res)
    case (Inl e)
    with Pair assms(4,5) have "wf_db (rollback d d')"
      by (intro wf_rollback [OF assms(1,2)]) simp_all
    with Pair Inl show ?thesis by (simp add: transaction_def)
  next
    case (Inr r)
    with Pair assms(3) show ?thesis by (simp add: transaction_def)
  qed
qed

lemma active_or_new_cart_seq:
  assumes "active_or_new_cart d = (res, d1)"
  shows "carts_id_seq d1 = carts_id_seq d \<or> carts_id_seq d1 = carts_id_seq d + 1"
    and "orders_id_seq d1 = orders_id_seq d" and "products d1 = products d"
proof -
  from assms have "d1 = d \<or> d1 = snd (insert_cart d)"
    by (auto simp: active_or_new_cart_def split: option.splits)
  then show "carts_id_seq d1 = carts_id_seq d \<or> carts_id_seq d1 = carts_id_seq d + 1"
    and "orders_id_seq d1 = orders_id_seq d" and "products d1 = products d"
    using insert_cart_seq [of d] by auto
qed

lemma active_or_new_cart_wf:
  assumes "wf_db d" and "seqs_open d" and "active_or_new_cart d = (res, d1)"
  shows "wf_db d1"
proof -
  from assms(3) have "d1 = d \<or> d1 = snd (insert_cart d)"
    by (auto simp: active_or_new_cart_def split: option.splits)
  with assms(1) insert_cart_wf [OF assms(1,2)] show ?thesis by auto
qed

lemma add_item_body_snd:
  assumes "active_or_new_cart d = (res, d1)"
  shows "snd (cart_add_item_body productId quantity d) = d1 \<or>
    (\<exists>cartId pr qty. select_product d1 productId = Some pr \<and>
       upsert_cart_item d1 cartId productId qty (p_price_cents pr) =
         Inr (snd (cart_add_item_body productId quantity d)))"
proof (cases res)
  case (Inl e)
  with assms show ?thesis by (simp add: cart_add_item_body_def)
next
  case (Inr cartId)
  note an = assms [unfolded Inr]
  show ?thesis
  proof (cases "select_product d1 productId")
    case None
    with an show ?thesis by (simp add: cart_add_item_body_def Let_def)
  next
    case (Some pr)
    let ?qty = "case quantity of Some q \<Rightarrow> q | None \<Rightarrow> 1"
    show ?thesis
    proof (cases "upsert_cart_item d1 cartId productId ?qty (p_price_cents pr)")
      case (Inl e)
      with an Some show ?thesis by (simp add: cart_add_item_body_def Let_def)
    next
      case (Inr d2)
      have "snd (cart_add_item_body productId quantity d) = d1 \<or>
          snd (cart_add_item_body productId quantity d) = d2"
        using an Some Inr by (simp add: cart_add_item_body_def Let_def)
      with Some Inr show ?thesis by auto
    qed
  qed
qed

lemma add_item_wf:
  assumes "wf_db d" and "seqs_open d"
  shows "wf_db (snd (cart_add_item productId quantity d))"
proof -
  obtain res d1 where an: "active_or_new_cart d = (res, d1)"
    by (cases "active_or_new_cart d")
  from assms an have wf1: "wf_db d1" by (rule active_or_new_cart_wf)
  note sq = active_or_new_cart_seq [OF an]
  let ?d' = "snd (cart_add_item_body productId quantity d)"
  from add_item_body_snd [OF an, of productId quantity]
  have "wf_db ?d' \<and> carts_id_seq ?d' = carts_id_seq d1 \<and> orders_id_seq ?d' = orders_id_seq d1"
  proof
    assume "?d' = d1"
    with wf1 show ?thesis by simp
  next
    assume "\<exists>cartId pr qty. select_product d1 productId = Some pr \<and>
       upsert_cart_item d1 cartId productId qty (p_price_cents pr) = Inr ?d'"
    then obtain cartId pr qty where pr: "select_product d1 productId = Some pr"
      and up: "upsert_cart_item d1 cartId productId qty (p_price_cents pr) = Inr ?d'"
      by blast
    from pr have "pr \<in> set (products d1)" by (simp add: select_product_Some)
    with wf1 have "int4 (p_price_cents pr)" by (simp add: wf_db_def products_ok_def)
    with wf1 have "wf_db ?d'" using up by (rule upsert_cart_item_wf)
    with upsert_cart_item_frame(6,7) [OF up] show ?thesis by simp
  qed
  with sq show ?thesis
    unfolding cart_add_item_def
    by (intro transaction_wf [OF assms]) auto
qed

lemma checkout_body_snd:
  "snd (cart_checkout_body d) = d \<or> snd (cart_checkout_body d) = snd (insert_order d) \<or>
   (\<exists>cartId orderId items d2. copy_lines (snd (insert_order d)) orderId items = Inr d2 \<and>
      snd (cart_checkout_body d) = mark_checked_out d2 cartId)"
proof (cases "select_active_cart d")
  case None
  then show ?thesis by (simp add: cart_checkout_body_def)
next
  case (Some cartId)
  let ?items = "select_cart_items d cartId"
  obtain res d1 where io: "insert_order d = (res, d1)" by (cases "insert_order d")
  show ?thesis
  proof (cases "?items = [] \<or> (\<exists>e. snd (lock_and_check d ?items) = Inl e) \<or> (\<exists>e. res = Inl e)")
    case True
    with Some io show ?thesis
      by (auto simp: cart_checkout_body_def Let_def split: sum.splits)
  next
    case False
    then obtain u orderId where ne: "?items \<noteq> []"
      and lc: "snd (lock_and_check d ?items) = Inr u" and res: "res = Inr orderId"
      by (cases "snd (lock_and_check d ?items)"; cases res) auto
    show ?thesis
    proof (cases "copy_lines d1 orderId ?items")
      case (Inl e)
      with Some ne lc res io show ?thesis
        by (simp add: cart_checkout_body_def Let_def)
    next
      case (Inr d2)
      with Some ne lc res io
      have "snd (cart_checkout_body d) = mark_checked_out d2 cartId"
        by (simp add: cart_checkout_body_def Let_def)
      moreover from Inr io have "copy_lines (snd (insert_order d)) orderId ?items = Inr d2"
        by simp
      ultimately show ?thesis by blast
    qed
  qed
qed

lemma checkout_wf:
  assumes "wf_db d" and "seqs_open d"
  shows "wf_db (snd (cart_checkout d))"
proof -
  let ?d1 = "snd (insert_order d)" and ?d' = "snd (cart_checkout_body d)"
  from assms have wf1: "wf_db ?d1" by (rule insert_order_wf)
  note sq = insert_order_seq [of d] insert_order_frame(6) [of d]
  from checkout_body_snd [of d]
  have "wf_db ?d' \<and> carts_id_seq ?d' = carts_id_seq d \<and>
      (orders_id_seq ?d' = orders_id_seq d \<or> orders_id_seq ?d' = orders_id_seq d + 1)"
  proof (elim disjE exE conjE)
    assume "?d' = d"
    with assms(1) show ?thesis by simp
  next
    assume "?d' = ?d1"
    with wf1 sq show ?thesis by simp
  next
    fix cartId orderId items d2
    assume cl: "copy_lines ?d1 orderId items = Inr d2" and d': "?d' = mark_checked_out d2 cartId"
    from wf1 cl have "wf_db d2" by (rule copy_lines_wf)
    then have "wf_db (mark_checked_out d2 cartId)" by (rule mark_checked_out_wf)
    with d' copy_lines_frame [OF cl] sq show ?thesis by simp
  qed
  then show ?thesis
    unfolding cart_checkout_def
    by (intro transaction_wf [OF assms]) auto
qed

lemma create_order_body_snd:
  "snd (create_order_body productId quantity d) = d \<or>
   snd (create_order_body productId quantity d) = snd (insert_order d) \<or>
   (\<exists>orderId qty price d2.
      insert_order_item (snd (insert_order d)) orderId productId qty price = Inr d2 \<and>
      (snd (create_order_body productId quantity d) = d2 \<or>
       update_stock d2 qty productId = Inr (snd (create_order_body productId quantity d))))"
proof -
  let ?qty = "case quantity of Some q \<Rightarrow> q | None \<Rightarrow> 1"
  obtain res d1 where io: "insert_order d = (res, d1)" by (cases "insert_order d")
  show ?thesis
  proof (cases "select_product d productId")
    case None
    then show ?thesis by (simp add: create_order_body_def Let_def)
  next
    case (Some pr)
    show ?thesis
    proof (cases res)
      case (Inl e)
      with Some io show ?thesis by (simp add: create_order_body_def Let_def)
    next
      case (Inr orderId)
      show ?thesis
      proof (cases "insert_order_item d1 orderId productId ?qty (p_price_cents pr)")
        case (Inl e)
        with Some io Inr show ?thesis by (simp add: create_order_body_def Let_def)
      next
        case ins: (Inr d2)
        have "snd (create_order_body productId quantity d) = d \<or>
            snd (create_order_body productId quantity d) = d2 \<or>
            update_stock d2 ?qty productId = Inr (snd (create_order_body productId quantity d))"
          using Some io Inr ins
          by (cases "update_stock d2 ?qty productId") (simp_all add: create_order_body_def Let_def)
        with ins io show ?thesis by auto
      qed
    qed
  qed
qed

lemma create_order_wf:
  assumes "wf_db d" and "seqs_open d"
  shows "wf_db (snd (create_order productId quantity d))"
proof -
  let ?d1 = "snd (insert_order d)" and ?d' = "snd (create_order_body productId quantity d)"
  from assms have wf1: "wf_db ?d1" by (rule insert_order_wf)
  note sq = insert_order_seq [of d] insert_order_frame(6) [of d]
  from create_order_body_snd [of productId quantity d]
  have "wf_db ?d' \<and> carts_id_seq ?d' = carts_id_seq d \<and>
      (orders_id_seq ?d' = orders_id_seq d \<or> orders_id_seq ?d' = orders_id_seq d + 1)"
  proof (elim disjE exE conjE)
    assume "?d' = d"
    with assms(1) show ?thesis by simp
  next
    assume "?d' = ?d1"
    with wf1 sq show ?thesis by simp
  next
    fix orderId qty price d2
    assume ins: "insert_order_item ?d1 orderId productId qty price = Inr d2" and "?d' = d2"
    with wf1 insert_order_item_wf [OF wf1 ins] insert_order_item_frame(6,7) [OF ins] sq
    show ?thesis by simp
  next
    fix orderId qty price d2
    assume ins: "insert_order_item ?d1 orderId productId qty price = Inr d2"
      and us: "update_stock d2 qty productId = Inr ?d'"
    from wf1 ins have "wf_db d2" by (rule insert_order_item_wf)
    then have "wf_db ?d'" using us by (rule update_stock_wf)
    with insert_order_item_frame(6,7) [OF ins] update_stock_frame(6,7) [OF us] sq
    show ?thesis by simp
  qed
  then show ?thesis
    unfolding create_order_def
    by (intro transaction_wf [OF assms]) auto
qed

lemma remove_item_wf:
  assumes "wf_db d" and "seqs_open d"
  shows "wf_db (snd (cart_remove_item productId d))"
proof -
  let ?d' = "snd (cart_remove_item_body productId d)"
  have "?d' = d \<or> (\<exists>cartId. ?d' = snd (delete_cart_line d cartId productId))"
    by (cases "select_active_cart d") (auto simp: cart_remove_item_body_def split_beta)
  then have "wf_db ?d' \<and> carts_id_seq ?d' = carts_id_seq d \<and> orders_id_seq ?d' = orders_id_seq d"
    using assms(1) delete_cart_line_wf [OF assms(1)]
    by (auto simp: delete_cart_line_def)
  then show ?thesis
    unfolding cart_remove_item_def
    by (intro transaction_wf [OF assms]) auto
qed

text \<open>
  Every tool, whether its call succeeds or fails, takes a store that satisfies the
  schema to one that does, as long as the id sequences are not at their last value: the
  integrity assumed of the store above is an invariant of the tools.
\<close>

lemma integrity_kept:
  assumes "wf_db d" and "seqs_open d"
  shows "wf_db (snd (cart_add_item productId quantity d)) \<and>
    wf_db (snd (cart_checkout d)) \<and>
    wf_db (snd (create_order productId quantity d)) \<and>
    wf_db (snd (cart_remove_item productId d)) \<and>
    wf_db (snd (cart_view d)) \<and>
    wf_db (snd (cart_ensure (\<lambda>s. s) d))"
proof -
  have "snd (cart_view d) = d"
    by (simp add: cart_view_def split: option.split sum.split)
  moreover have "snd (cart_ensure (\<lambda>s. s) d) = d \<or> snd (cart_ensure (\<lambda>s. s) d) = snd (insert_cart d)"
    by (simp add: cart_ensure_def split: option.split)
  ultimately show ?thesis
    using assms add_item_wf checkout_wf create_order_wf remove_item_wf insert_cart_wf
    by auto
qed

lemma integrity_kept_example:
  "wf_db shop \<and> seqs_open shop \<and> wf_db (snd (cart_add_item 1 (Some 2) shop)) \<and>
   wf_db (snd (cart_checkout (snd (cart_add_item 1 (Some 2) shop))))"
proof -
  have o: "seqs_open shop" by (simp add: seqs_open_def shop_def)
  have 1: "wf_db (snd (cart_add_item 1 (Some 2) shop))"
    using integrity_kept [OF wf_shop o] by blast
  have "seqs_open (snd (cart_add_item 1 (Some 2) shop))"
    by code_simp
  with 1 have "wf_db (snd (cart_checkout (snd (cart_add_item 1 (Some 2) shop))))"
    using integrity_kept by blast
  with wf_shop o 1 show ?thesis by blast
qed

end
